theory Spec2Isabelle
  imports Main "HOL-Library.AList" "HOL-Library.Code_Target_Numeral"
begin

section \<open>Per-chat state persistence of GDGAjuBot (gdgajubot/data/resources.py)\<close>

text \<open>
  The development embeds the state persistence code of \<^verbatim>\<open>resources.py\<close>:
  the codec \<^verbatim>\<open>JSONCodec\<close> with its \<^verbatim>\<open>Encoder.default\<close> and
  \<^verbatim>\<open>Decoder.object_hook\<close>, and the methods \<^verbatim>\<open>set_state\<close>,
  \<^verbatim>\<open>get_state\<close>, \<^verbatim>\<open>load_states\<close> and \<^verbatim>\<open>__state_dict\<close> of
  \<^verbatim>\<open>Resources\<close>.

  Python exceptions are values of \<open>py_error\<close>; a fallible function returns
  \<open>py_error + 'a\<close> with \<open>Inl\<close> for the exception that is raised.
\<close>

datatype py_error = ValueError | TypeError | AttributeError | ObjectNotFound

subsection \<open>Timestamps and the fixed format\<close>

text \<open>
  A \<^verbatim>\<open>datetime.datetime\<close> object: its calendar fields and its UTC offset in
  microseconds (\<open>None\<close> for a naive object, one without \<^verbatim>\<open>tzinfo\<close>). The
  \<^verbatim>\<open>tzinfo\<close> of an aware object is a fixed offset, as \<^verbatim>\<open>datetime.timezone\<close> and
  \<^verbatim>\<open>strptime\<close> make it.

  \<^verbatim>\<open>strftime\<close> and \<^verbatim>\<open>strptime\<close> are the standard library's. They are modelled for
  the one format of the codec, after CPython 3.11 on the GNU C library: \<^verbatim>\<open>strptime\<close>
  after the regular expressions of \<^verbatim>\<open>Lib/_strptime.py\<close>, \<^verbatim>\<open>strftime\<close> after
  \<^verbatim>\<open>_wrap_strftime\<close> and the C library's \<^verbatim>\<open>strftime\<close>. A string holds characters
  below U+0100, among which the digits are \<^verbatim>\<open>0\<close> to \<^verbatim>\<open>9\<close>. The resource limits of the
  interpreter (the depth of recursion, the length limit of the conversion between
  integers and strings) are outside the model.
\<close>

record datetime =
  year :: nat
  month :: nat
  day :: nat
  hour :: nat
  minute :: nat
  second :: nat
  microsecond :: nat
  utcoffset :: "int option"

definition is_leap :: "nat \<Rightarrow> bool" where
  "is_leap y = (y mod 4 = 0 \<and> (y mod 100 \<noteq> 0 \<or> y mod 400 = 0))"

definition days_in_month :: "nat \<Rightarrow> nat \<Rightarrow> nat" where
  "days_in_month y m =
     (if m = 2 then (if is_leap y then 29 else 28)
      else if m = 4 \<or> m = 6 \<or> m = 9 \<or> m = 11 then 30 else 31)"

text \<open>
  The values the constructors of \<^verbatim>\<open>datetime.datetime\<close> and \<^verbatim>\<open>datetime.timezone\<close>
  accept (they raise \<^verbatim>\<open>ValueError\<close> on all others), so every timestamp object of a
  running program satisfies it. An offset lies strictly between minus and plus 24 hours.
\<close>

definition valid_datetime :: "datetime \<Rightarrow> bool" where
  "valid_datetime t =
     (1 \<le> year t \<and> year t \<le> 9999 \<and> 1 \<le> month t \<and> month t \<le> 12 \<and>
      1 \<le> day t \<and> day t \<le> days_in_month (year t) (month t) \<and>
      hour t < 24 \<and> minute t < 60 \<and> second t < 60 \<and> microsecond t < 1000000 \<and>
      (case utcoffset t of
         None \<Rightarrow> True
       | Some off \<Rightarrow> - 86400000000 < off \<and> off < 86400000000))"

definition digit_char :: "nat \<Rightarrow> char" where
  "digit_char d = char_of (48 + d)"

definition digit_of :: "char \<Rightarrow> nat option" where
  "digit_of c =
     (let k = (of_char c :: nat) in if 48 \<le> k \<and> k \<le> 57 then Some (k - 48) else None)"

definition is_digit :: "char \<Rightarrow> bool" where
  "is_digit c = (digit_of c \<noteq> None)"

text \<open>A number written with exactly \<open>w\<close> decimal digits, zero-padded (\<^verbatim>\<open>%02d\<close>).\<close>

fun zpad :: "nat \<Rightarrow> nat \<Rightarrow> string" where
  "zpad 0 n = []"
| "zpad (Suc w) n = zpad w (n div 10) @ [digit_char (n mod 10)]"

text \<open>
  The directive \<^verbatim>\<open>%Y\<close> when formatting: the C library writes the year in decimal with
  no padding, so a year before 1000 has fewer than four digits. A year is at most 9999.
\<close>

definition format_Y :: "nat \<Rightarrow> string" where
  "format_Y y =
     (if y < 10 then zpad 1 y else if y < 100 then zpad 2 y
      else if y < 1000 then zpad 3 y else zpad 4 y)"

text \<open>
  The directive \<^verbatim>\<open>%z\<close> when formatting: the empty string for a naive object, else the
  sign, hours and minutes, then the seconds when seconds or microseconds are not zero,
  then the microseconds when they are not zero.
\<close>

definition format_z :: "int option \<Rightarrow> string" where
  "format_z z =
     (case z of
        None \<Rightarrow> []
      | Some off \<Rightarrow>
          (let a = nat \<bar>off\<bar>;
               h = a div 3600000000;
               m = a mod 3600000000 div 60000000;
               s = a mod 60000000 div 1000000;
               u = a mod 1000000
           in (if off < 0 then CHR ''-'' else CHR ''+'') # zpad 2 h @ zpad 2 m @
              (if u \<noteq> 0 then zpad 2 s @ ''.'' @ zpad 6 u
               else if s \<noteq> 0 then zpad 2 s else [])))"

text \<open>
  \<^verbatim>\<open>DATETIME_FORMAT = '%Y-%m-%dT%H:%M:%S.%f%z'\<close> and
  \<^verbatim>\<open>obj.strftime(DATETIME_FORMAT)\<close>.
\<close>

definition strftime :: "datetime \<Rightarrow> string" where
  "strftime t =
     format_Y (year t) @ ''-'' @ zpad 2 (month t) @ ''-'' @ zpad 2 (day t) @ ''T'' @
     zpad 2 (hour t) @ '':'' @ zpad 2 (minute t) @ '':'' @ zpad 2 (second t) @ ''.'' @
     zpad 6 (microsecond t) @ format_z (utcoffset t)"

fun read_nat_acc :: "nat \<Rightarrow> string \<Rightarrow> nat option" where
  "read_nat_acc a [] = Some a"
| "read_nat_acc a (c # cs) =
     (case digit_of c of None \<Rightarrow> None | Some d \<Rightarrow> read_nat_acc (10 * a + d) cs)"

text \<open>Reads exactly \<open>w\<close> digits from the front of the string (\<^verbatim>\<open>\d\<close> repeated).\<close>

definition take_field :: "nat \<Rightarrow> string \<Rightarrow> (nat \<times> string) option" where
  "take_field w s =
     (if length s < w then None
      else map_option (\<lambda>n. (n, drop w s)) (read_nat_acc 0 (take w s)))"

text \<open>
  Reads a number of one or two digits between \<open>lo\<close> and \<open>hi\<close>. In the format such a
  field is followed by a character that is no digit, so the field is the whole run of
  digits at the front: \<^verbatim>\<open>1[0-2]|0[1-9]|[1-9]\<close> for the month reads the numbers 1 to 12
  in one or two digits, and likewise for the other fields.
\<close>

definition take_number :: "nat \<Rightarrow> nat \<Rightarrow> string \<Rightarrow> (nat \<times> string) option" where
  "take_number lo hi s =
     (let ds = takeWhile is_digit s in
      if ds = [] \<or> 2 < length ds then None
      else case read_nat_acc 0 ds of
             None \<Rightarrow> None
           | Some n \<Rightarrow> if lo \<le> n \<and> n \<le> hi then Some (n, dropWhile is_digit s) else None)"

text \<open>
  The directive \<^verbatim>\<open>%d\<close>, \<^verbatim>\<open>3[0-1]|[1-2]\d|0[1-9]|[1-9]| [1-9]\<close>: a number from 1 to 31, or
  a space and one digit that is not zero.
\<close>

definition take_day :: "string \<Rightarrow> (nat \<times> string) option" where
  "take_day s =
     (case s of
        c # d # r \<Rightarrow>
          (if c = CHR '' '' then
             (case digit_of d of
                None \<Rightarrow> None
              | Some n \<Rightarrow> if 1 \<le> n then Some (n, r) else None)
           else take_number 1 31 s)
      | _ \<Rightarrow> take_number 1 31 s)"

text \<open>
  The directive \<^verbatim>\<open>%f\<close>, \<^verbatim>\<open>[0-9]{1,6}\<close>: one to six digits, padded with zeros on the
  right to microseconds.
\<close>

definition take_fraction :: "string \<Rightarrow> (nat \<times> string) option" where
  "take_fraction s =
     (let ds = takeWhile is_digit s in
      if ds = [] \<or> 6 < length ds then None
      else map_option (\<lambda>n. (n, dropWhile is_digit s))
             (read_nat_acc 0 (ds @ replicate (6 - length ds) CHR ''0'')))"

text \<open>Reads one literal character of the format.\<close>

fun take_lit :: "char \<Rightarrow> string \<Rightarrow> string option" where
  "take_lit c [] = None"
| "take_lit c (x # xs) = (if x = c then Some xs else None)"

text \<open>The letter of the format: the expression is compiled with \<^verbatim>\<open>IGNORECASE\<close>.\<close>

definition take_T :: "string \<Rightarrow> string option" where
  "take_T s = (case take_lit CHR ''T'' s of Some r \<Rightarrow> Some r | None \<Rightarrow> take_lit CHR ''t'' s)"

text \<open>An optional colon (\<^verbatim>\<open>:?\<close>): whether it was there, and the rest.\<close>

definition skip_colon :: "string \<Rightarrow> bool \<times> string" where
  "skip_colon s = (case take_lit CHR '':'' s of None \<Rightarrow> (False, s) | Some r \<Rightarrow> (True, r))"

text \<open>
  The directive \<^verbatim>\<open>%z\<close> when parsing,
  \<^verbatim>\<open>[+-]\d\d:?[0-5]\d(:?[0-5]\d(\.\d{1,6})?)?|(?-i:Z)\<close>, to the end of the string.
  \<open>parse_z_seconds\<close> reads what follows the minutes, in microseconds: nothing, or the
  seconds and perhaps a fraction. The seconds have a colon before them exactly when the
  minutes have one, or else the conversion raises.
\<close>

definition parse_z_seconds :: "bool \<Rightarrow> string \<Rightarrow> nat option" where
  "parse_z_seconds colon s =
     (if s = [] then Some 0
      else case skip_colon s of
        (colon2, r) \<Rightarrow>
          (case take_field 2 r of
             None \<Rightarrow> None
           | Some (ss, r1) \<Rightarrow>
               (if 60 \<le> ss \<or> colon2 \<noteq> colon then None
                else if r1 = [] then Some (ss * 1000000)
                else case take_lit CHR ''.'' r1 of
                  None \<Rightarrow> None
                | Some r2 \<Rightarrow>
                    (case take_fraction r2 of
                       None \<Rightarrow> None
                     | Some (u, r3) \<Rightarrow>
                         if r3 = [] then Some (ss * 1000000 + u) else None))))"

definition parse_z :: "string \<Rightarrow> int option" where
  "parse_z s =
     (if s = ''Z'' then Some 0
      else case s of
        [] \<Rightarrow> None
      | c # r \<Rightarrow>
          (if c \<noteq> CHR ''+'' \<and> c \<noteq> CHR ''-'' then None
           else case take_field 2 r of
             None \<Rightarrow> None
           | Some (hh, r1) \<Rightarrow>
               (case skip_colon r1 of
                  (colon, r2) \<Rightarrow>
                    (case take_field 2 r2 of
                       None \<Rightarrow> None
                     | Some (mm, r3) \<Rightarrow>
                         (if 60 \<le> mm then None
                          else case parse_z_seconds colon r3 of
                            None \<Rightarrow> None
                          | Some us \<Rightarrow>
                              Some ((if c = CHR ''-'' then - 1 else 1) *
                                    int ((hh * 3600 + mm * 60) * 1000000 + us)))))))"

text \<open>
  The fields of a string that matches the format, before the constructors check them:
  \<^verbatim>\<open>\d\d\d\d\<close> for the year, then the fields and literals in the order of the format.
\<close>

definition parse_fields :: "string \<Rightarrow> datetime option" where
  "parse_fields s =
     Option.bind (take_field 4 s) (\<lambda>(y, s).
     Option.bind (take_lit CHR ''-'' s) (\<lambda>s.
     Option.bind (take_number 1 12 s) (\<lambda>(mo, s).
     Option.bind (take_lit CHR ''-'' s) (\<lambda>s.
     Option.bind (take_day s) (\<lambda>(d, s).
     Option.bind (take_T s) (\<lambda>s.
     Option.bind (take_number 0 23 s) (\<lambda>(h, s).
     Option.bind (take_lit CHR '':'' s) (\<lambda>s.
     Option.bind (take_number 0 59 s) (\<lambda>(mi, s).
     Option.bind (take_lit CHR '':'' s) (\<lambda>s.
     Option.bind (take_number 0 61 s) (\<lambda>(sec, s).
     Option.bind (take_lit CHR ''.'' s) (\<lambda>s.
     Option.bind (take_fraction s) (\<lambda>(us, s).
     Option.bind (parse_z s) (\<lambda>off.
       Some \<lparr>year = y, month = mo, day = d, hour = h, minute = mi, second = sec,
             microsecond = us, utcoffset = Some off\<rparr>))))))))))))))"

text \<open>
  \<^verbatim>\<open>datetime.datetime.strptime(s, DATETIME_FORMAT)\<close>: \<^verbatim>\<open>ValueError\<close> when the
  string does not match the format, when it goes on after the match, or when the fields
  name no valid timestamp.
\<close>

definition strptime :: "string \<Rightarrow> py_error + datetime" where
  "strptime s =
     (case parse_fields s of
        None \<Rightarrow> Inl ValueError
      | Some t \<Rightarrow> if valid_datetime t then Inr t else Inl ValueError)"

subsection \<open>Values and JSON documents\<close>

text \<open>
  The Python values a record is built from: \<^verbatim>\<open>None\<close>, booleans, integers, strings,
  lists, dictionaries with string keys (in insertion order) and timestamps. \<open>PyObject\<close>
  stands for an object of any other type (a set, an instance of a class of the bot),
  named by a number. A float is an IEEE double, given by its sign, its exponent of 11
  bits and its fraction of 52 bits; it is a NaN when the exponent is 2047 and the fraction
  is not zero.
\<close>

datatype pyfloat = Float bool nat nat

fun is_nan :: "pyfloat \<Rightarrow> bool" where
  "is_nan (Float s e f) = (e = 2047 \<and> f \<noteq> 0)"

text \<open>\<^verbatim>\<open>float('nan')\<close>: the quiet NaN of positive sign.\<close>

definition nan :: pyfloat where
  "nan = Float False 2047 2251799813685248"

datatype pyval =
    PyNone
  | PyBool bool
  | PyInt int
  | PyFloat pyfloat
  | PyStr string
  | PyList "pyval list"
  | PyDict "(string \<times> pyval) list"
  | PyDatetime datetime
  | PyObject nat

type_synonym pydict = "(string \<times> pyval) list"

text \<open>
  The text the codec writes and reads is JSON. The serialiser and the parser are those of
  the standard library (\<^verbatim>\<open>json.JSONEncoder\<close>, \<^verbatim>\<open>json.JSONDecoder\<close>); the
  repository supplies the two hooks. A text is represented by the JSON document it
  spells, with the members of an object in the order of the text, repeated names
  included. A number with a fraction or an exponent is the double the parser reads it as;
  the encoder writes a double as its shortest decimal that reads back as the same double,
  \<^verbatim>\<open>Infinity\<close> and \<^verbatim>\<open>-Infinity\<close> for the infinities, and \<^verbatim>\<open>NaN\<close> for every NaN,
  which reads back as \<^verbatim>\<open>float('nan')\<close>.
\<close>

datatype json =
    JNull
  | JBool bool
  | JInt int
  | JFloat pyfloat
  | JString string
  | JArray "json list"
  | JObject "(string \<times> json) list"

text \<open>The first exception of a sequence of results, or all their values.\<close>

fun sequence :: "('e + 'a) list \<Rightarrow> 'e + 'a list" where
  "sequence [] = Inr []"
| "sequence (x # xs) =
     (case x of
        Inl e \<Rightarrow> Inl e
      | Inr v \<Rightarrow> (case sequence xs of Inl e \<Rightarrow> Inl e | Inr vs \<Rightarrow> Inr (v # vs)))"

text \<open>
  \<^verbatim>\<open>d.update(other)\<close> on the items of two dictionaries: a key of \<open>d\<close> keeps its
  place and takes the new value, a new key goes to the end.
\<close>

definition dict_update :: "(string \<times> 'v) list \<Rightarrow> (string \<times> 'v) list \<Rightarrow> (string \<times> 'v) list" where
  "dict_update d other = fold (\<lambda>(k, v). AList.update k v) other d"

text \<open>\<^verbatim>\<open>dict(pairs)\<close>, as the parser builds an object from its members.\<close>

definition dict_of_pairs :: "(string \<times> 'v) list \<Rightarrow> (string \<times> 'v) list" where
  "dict_of_pairs ps = dict_update [] ps"

subsection \<open>The codec\<close>

text \<open>
  \<^verbatim>\<open>JSONCodec.Encoder.default\<close>: the encoder calls it on an object it cannot serialise
  itself. A timestamp becomes the tagging dictionary; for every other object
  \<^verbatim>\<open>super().default(obj)\<close> raises \<^verbatim>\<open>TypeError\<close>.
\<close>

fun default :: "pyval \<Rightarrow> py_error + pyval" where
  "default (PyDatetime obj) = Inr (PyDict [(''__datetime__'', PyStr (strftime obj))])"
| "default obj = Inl TypeError"

text \<open>
  \<^verbatim>\<open>Encoder().encode\<close>: the library's encoder with that hook. The two last equations
  are the encoder serialising what \<open>default\<close> returns (lemma \<open>encode_default\<close>).
\<close>

fun encode :: "pyval \<Rightarrow> py_error + json" where
  "encode PyNone = Inr JNull"
| "encode (PyBool b) = Inr (JBool b)"
| "encode (PyInt i) = Inr (JInt i)"
| "encode (PyFloat x) = Inr (JFloat (if is_nan x then nan else x))"
| "encode (PyStr s) = Inr (JString s)"
| "encode (PyList xs) =
     (case sequence (map encode xs) of Inl e \<Rightarrow> Inl e | Inr js \<Rightarrow> Inr (JArray js))"
| "encode (PyDict kvs) =
     (case sequence (map (\<lambda>kv. encode (snd kv)) kvs) of
        Inl e \<Rightarrow> Inl e
      | Inr js \<Rightarrow> Inr (JObject (zip (map fst kvs) js)))"
| "encode (PyDatetime obj) = Inr (JObject [(''__datetime__'', JString (strftime obj))])"
| "encode (PyObject n) = Inl TypeError"

text \<open>
  \<^verbatim>\<open>JSONCodec.Decoder.object_hook\<close>: called by the parser on the dictionary of every
  object, the members already decoded. \<^verbatim>\<open>strptime\<close> raises \<^verbatim>\<open>TypeError\<close> on an
  argument that is not a string.
\<close>

definition object_hook :: "pydict \<Rightarrow> py_error + pyval" where
  "object_hook obj =
     (case map_of obj ''__datetime__'' of
        None \<Rightarrow> Inr (PyDict obj)
      | Some v \<Rightarrow>
          (case v of
             PyStr s \<Rightarrow> (case strptime s of Inl e \<Rightarrow> Inl e | Inr t \<Rightarrow> Inr (PyDatetime t))
           | _ \<Rightarrow> Inl TypeError))"

text \<open>\<^verbatim>\<open>Decoder().decode\<close>: the library's parser with that hook, innermost objects first.\<close>

fun decode :: "json \<Rightarrow> py_error + pyval" where
  "decode JNull = Inr PyNone"
| "decode (JBool b) = Inr (PyBool b)"
| "decode (JInt i) = Inr (PyInt i)"
| "decode (JFloat x) = Inr (PyFloat x)"
| "decode (JString s) = Inr (PyStr s)"
| "decode (JArray js) =
     (case sequence (map decode js) of Inl e \<Rightarrow> Inl e | Inr vs \<Rightarrow> Inr (PyList vs))"
| "decode (JObject kjs) =
     (case sequence (map (\<lambda>kj. decode (snd kj)) kjs) of
        Inl e \<Rightarrow> Inl e
      | Inr vs \<Rightarrow> object_hook (dict_of_pairs (zip (map fst kjs) vs)))"

text \<open>
  \<^verbatim>\<open>json_encode\<close> and \<^verbatim>\<open>json_decode\<close> call \<^verbatim>\<open>JSONCodec().encode\<close> and
  \<^verbatim>\<open>JSONCodec().decode\<close>, the attributes \<^verbatim>\<open>__new__\<close> sets on the instance.
\<close>

definition json_encode :: "pyval \<Rightarrow> py_error + json" where
  "json_encode info = encode info"

definition json_decode :: "json \<Rightarrow> py_error + pyval" where
  "json_decode info = decode info"

text \<open>
  The values a record is built from, after the data model of the spec: \<^verbatim>\<open>None\<close>,
  booleans, integers, floats, strings, lists, dictionaries and timestamps that carry a
  UTC offset. A dictionary has no key twice and a timestamp is a valid one, as in every
  Python object.
\<close>

fun record_value :: "pyval \<Rightarrow> bool" where
  "record_value (PyList xs) = list_all record_value xs"
| "record_value (PyDict kvs) =
     (distinct (map fst kvs) \<and> list_all (\<lambda>kv. record_value (snd kv)) kvs)"
| "record_value (PyDatetime t) = (valid_datetime t \<and> utcoffset t \<noteq> None)"
| "record_value (PyObject n) = False"
| "record_value v = True"

text \<open>
  The values of the round-trip law: the values above in which every timestamp has a year
  of four digits and no float is a NaN (a NaN is not equal to itself, so no decoding can
  give a value equal to it).
\<close>

fun json_value :: "pyval \<Rightarrow> bool" where
  "json_value (PyList xs) = list_all json_value xs"
| "json_value (PyDict kvs) =
     (distinct (map fst kvs) \<and> list_all (\<lambda>kv. json_value (snd kv)) kvs)"
| "json_value (PyDatetime t) = (valid_datetime t \<and> utcoffset t \<noteq> None \<and> 1000 \<le> year t)"
| "json_value (PyFloat x) = (\<not> is_nan x)"
| "json_value (PyObject n) = False"
| "json_value v = True"

text \<open>No dictionary inside the value has the key \<^verbatim>\<open>'__datetime__'\<close>.\<close>

fun no_tag_key :: "pyval \<Rightarrow> bool" where
  "no_tag_key (PyList xs) = list_all no_tag_key xs"
| "no_tag_key (PyDict kvs) =
     (''__datetime__'' \<notin> set (map fst kvs) \<and> list_all (\<lambda>kv. no_tag_key (snd kv)) kvs)"
| "no_tag_key v = True"

text \<open>\<^verbatim>\<open>decode(encode(v))\<close>\<close>

definition decode_encode :: "pyval \<Rightarrow> py_error + pyval" where
  "decode_encode v = (case encode v of Inl e \<Rightarrow> Inl e | Inr j \<Rightarrow> decode j)"

text \<open>
  \<^verbatim>\<open>JSONCodec.__new__\<close>. The class attribute \<^verbatim>\<open>instance\<close> is \<open>cls_instance\<close>
  (\<open>None\<close> while \<^verbatim>\<open>hasattr(cls, 'instance')\<close> is false); an instance is named by its
  place among the objects of the class created so far.
\<close>

record codec =
  codec_encode :: "pyval \<Rightarrow> py_error + json"
  codec_decode :: "json \<Rightarrow> py_error + pyval"

record codec_class =
  cls_instance :: "nat option"
  cls_objects :: "codec list"

definition JSONCodec_new :: "codec_class \<Rightarrow> nat \<times> codec_class" where
  "JSONCodec_new cls =
     (case cls_instance cls of
        None \<Rightarrow>
          (length (cls_objects cls),
           \<lparr>cls_instance = Some (length (cls_objects cls)),
            cls_objects = cls_objects cls @ [\<lparr>codec_encode = encode, codec_decode = decode\<rparr>]\<rparr>)
      | Some i \<Rightarrow> (i, cls))"

subsection \<open>Objects and the durable table\<close>

text \<open>
  A dictionary object of the heap: its items, and for a \<^verbatim>\<open>StateDict\<close> (a subclass of
  \<^verbatim>\<open>dict\<close>) its dump function. The only dump function the code builds is the closure
  \<^verbatim>\<open>lambda state: self.set_state(state_id, chat_id, state)\<close> of \<^verbatim>\<open>__state_dict\<close>,
  kept as the pair it captures. References are positions in the heap; the values inside
  a dictionary are not shared with anything these functions change, so they stay values.
\<close>

record pyobj =
  items :: pydict
  dump_function :: "(string \<times> int) option"

text \<open>
  Modelled from the spec: the entity \<^verbatim>\<open>State\<close> is declared in
  \<^verbatim>\<open>gdgajubot/data/database.py\<close>, which is not among the sources. After the spec
  (External interfaces) a row is keyed by \<open>(chat, namespace)\<close> and holds the encoded
  text \<open>info\<close>; the store offers a lookup by key that signals a miss, the insertion of
  a new row and the update of a field of an existing one.
\<close>

type_synonym state_key = "int \<times> string"

record world =
  heap :: "pyobj list"
  table :: "(state_key \<times> json) list"

text \<open>\<^verbatim>\<open>State[chat_id, state_id]\<close>, which raises \<^verbatim>\<open>ObjectNotFound\<close> on a miss.\<close>

definition State_getitem :: "state_key \<Rightarrow> world \<Rightarrow> py_error + json" where
  "State_getitem key w =
     (case map_of (table w) key of None \<Rightarrow> Inl ObjectNotFound | Some info \<Rightarrow> Inr info)"

text \<open>\<^verbatim>\<open>State.get(telegram_id=chat_id, description=state_id)\<close>, \<^verbatim>\<open>None\<close> on a miss.\<close>

definition State_get :: "state_key \<Rightarrow> world \<Rightarrow> json option" where
  "State_get key w = map_of (table w) key"

text \<open>\<^verbatim>\<open>state.info = text\<close> on the row of the key.\<close>

definition State_set_info :: "state_key \<Rightarrow> json \<Rightarrow> world \<Rightarrow> world" where
  "State_set_info key info w = w\<lparr>table := AList.update key info (table w)\<rparr>"

text \<open>\<^verbatim>\<open>State(telegram_id=chat_id, description=state_id, info=text)\<close>: a new row.\<close>

definition State_new :: "state_key \<Rightarrow> json \<Rightarrow> world \<Rightarrow> world" where
  "State_new key info w = w\<lparr>table := table w @ [(key, info)]\<rparr>"


text \<open>\<^verbatim>\<open>d.copy()\<close>: a new plain dictionary with the same items.\<close>

definition dict_copy :: "nat \<Rightarrow> world \<Rightarrow> nat \<times> world" where
  "dict_copy r w =
     (length (heap w),
      w\<lparr>heap := heap w @ [\<lparr>items = items (heap w ! r), dump_function = None\<rparr>]\<rparr>)"

text \<open>\<^verbatim>\<open>d.pop(key, None)\<close>, the result dropped.\<close>

definition dict_pop :: "nat \<Rightarrow> string \<Rightarrow> world \<Rightarrow> world" where
  "dict_pop r key w =
     w\<lparr>heap := (heap w)[r := (heap w ! r)\<lparr>items := AList.delete key (items (heap w ! r))\<rparr>]\<rparr>"

text \<open>\<^verbatim>\<open>d[key] = v\<close> on a dictionary object.\<close>

definition dict_setitem :: "nat \<Rightarrow> string \<Rightarrow> pyval \<Rightarrow> world \<Rightarrow> world" where
  "dict_setitem r key v w =
     w\<lparr>heap := (heap w)[r := (heap w ! r)\<lparr>items := AList.update key v (items (heap w ! r))\<rparr>]\<rparr>"

text \<open>
  \<^verbatim>\<open>info.update(chat_state)\<close> on what \<^verbatim>\<open>json_decode\<close> returned: only a dictionary has
  the method.
\<close>

fun update_method :: "pyval \<Rightarrow> pydict \<Rightarrow> py_error + pyval" where
  "update_method (PyDict d) other = Inr (PyDict (dict_update d other))"
| "update_method v other = Inl AttributeError"

subsection \<open>The state store\<close>

text \<open>
  \<^verbatim>\<open>Resources.set_state(state_id, chat_id, chat_state)\<close>, with \<open>chat_state\<close> the
  reference the caller passes. The result pairs the outcome of the call with the world
  at its end, so that what an exception leaves behind can be read off.
\<close>

definition set_state :: "string \<Rightarrow> int \<Rightarrow> nat \<Rightarrow> world \<Rightarrow> (py_error + unit) \<times> world" where
  "set_state state_id chat_id chat_state w =
     (let (c, w1) = dict_copy chat_state w;
          w2 = dict_pop c ''__memory__'' w1
      in case State_getitem (chat_id, state_id) w2 of
           Inr text \<Rightarrow>
             (case json_decode text of
                Inl e \<Rightarrow> (Inl e, w2)
              | Inr info \<Rightarrow>
                  (case update_method info (items (heap w2 ! c)) of
                     Inl e \<Rightarrow> (Inl e, w2)
                   | Inr info' \<Rightarrow>
                       (case json_encode info' of
                          Inl e \<Rightarrow> (Inl e, w2)
                        | Inr text' \<Rightarrow>
                            (Inr (), State_set_info (chat_id, state_id) text' w2))))
         | Inl e \<Rightarrow>
             (if e = ObjectNotFound then
                (case json_encode (PyDict (items (heap w2 ! c))) of
                   Inl e' \<Rightarrow> (Inl e', w2)
                 | Inr text' \<Rightarrow> (Inr (), State_new (chat_id, state_id) text' w2))
              else (Inl e, w2)))"

text \<open>\<^verbatim>\<open>Resources.get_state(state_id, chat_id)\<close>\<close>

definition get_state :: "string \<Rightarrow> int \<Rightarrow> world \<Rightarrow> py_error + pyval" where
  "get_state state_id chat_id w =
     (case State_get (chat_id, state_id) w of
        Some info \<Rightarrow> json_decode info
      | None \<Rightarrow> Inr (PyDict []))"

subsection \<open>Write-through records and the lazy map\<close>
















subsection \<open>Notions the properties are stated with\<close>

text \<open>The value holds, at any depth, an object of a type the encoder does not know.\<close>

fun has_unsupported :: "pyval \<Rightarrow> bool" where
  "has_unsupported (PyObject n) = True"
| "has_unsupported (PyList xs) = list_ex has_unsupported xs"
| "has_unsupported (PyDict kvs) = list_ex (\<lambda>kv. has_unsupported (snd kv)) kvs"
| "has_unsupported v = False"

text \<open>The names of the members of a stored text, when it is an object.\<close>

definition json_fields :: "json \<Rightarrow> string list" where
  "json_fields j = (case j of JObject kjs \<Rightarrow> map fst kjs | _ \<Rightarrow> [])"

text \<open>The names of the members of the row of a key; none when there is no row.\<close>

definition row_fields :: "state_key \<Rightarrow> world \<Rightarrow> string list" where
  "row_fields key w = (case State_get key w of None \<Rightarrow> [] | Some info \<Rightarrow> json_fields info)"

text \<open>The outcome of a call is a dictionary.\<close>

fun is_mapping :: "py_error + pyval \<Rightarrow> bool" where
  "is_mapping (Inr (PyDict d)) = True"
| "is_mapping r = False"

text \<open>No stored text has the scratch field \<^verbatim>\<open>'__memory__'\<close> among its members.\<close>

definition no_scratch_rows :: "world \<Rightarrow> bool" where
  "no_scratch_rows w = list_all (\<lambda>row. ''__memory__'' \<notin> set (json_fields (snd row))) (table w)"

text \<open>
  The worlds a run can reach: it starts with no row, the only writer of the table is
  \<^verbatim>\<open>set_state\<close>, and between the calls the program changes the heap as it likes.
\<close>

inductive reachable :: "world \<Rightarrow> bool" where
  start: "table w = [] \<Longrightarrow> reachable w"
| heap_step: "reachable w \<Longrightarrow> reachable (w\<lparr>heap := h\<rparr>)"
| set_step: "reachable w \<Longrightarrow> reachable (snd (set_state state_id chat_id r w))"

text \<open>The instances that \<open>n\<close> calls of the constructor return, one after the other.\<close>

primrec JSONCodec_calls :: "nat \<Rightarrow> codec_class \<Rightarrow> nat list \<times> codec_class" where
  "JSONCodec_calls 0 cls = ([], cls)"
| "JSONCodec_calls (Suc n) cls =
     (case JSONCodec_new cls of
        (i, cls1) \<Rightarrow> (case JSONCodec_calls n cls1 of (is, cls2) \<Rightarrow> (i # is, cls2)))"

section \<open>Properties\<close>

subsection \<open>Lemmas on the fixed format\<close>

lemma digit_of_digit_char: "d < 10 \<Longrightarrow> digit_of (digit_char d) = Some d"
  by (simp add: digit_of_def digit_char_def Let_def)

lemma is_digit_digit_char: "d < 10 \<Longrightarrow> is_digit (digit_char d)"
  by (simp add: is_digit_def digit_of_digit_char)

lemma not_digit:
  "\<not> is_digit CHR ''-''" "\<not> is_digit CHR ''+''" "\<not> is_digit CHR '':''"
  "\<not> is_digit CHR ''.''" "\<not> is_digit CHR ''T''" "\<not> is_digit CHR '' ''"
  by (simp_all add: is_digit_def digit_of_def)

lemma length_zpad: "length (zpad w n) = w"
  by (induction w arbitrary: n) auto

lemma is_digit_zpad: "c \<in> set (zpad w n) \<Longrightarrow> is_digit c"
  by (induction w arbitrary: n) (auto simp: is_digit_digit_char)

lemma zpad_2: "zpad 2 n = [digit_char (n div 10 mod 10), digit_char (n mod 10)]"
  by (simp add: numeral_2_eq_2)

lemma takeWhile_zpad:
  "\<not> is_digit c \<Longrightarrow> takeWhile is_digit (zpad w n @ c # r) = zpad w n"
  "\<not> is_digit c \<Longrightarrow> dropWhile is_digit (zpad w n @ c # r) = c # r"
  "takeWhile is_digit (zpad w n) = zpad w n"
  "dropWhile is_digit (zpad w n) = []"
  by (simp_all add: takeWhile_append2 dropWhile_append2 is_digit_zpad)

lemma read_nat_acc_append:
  "read_nat_acc a (xs @ ys) = Option.bind (read_nat_acc a xs) (\<lambda>b. read_nat_acc b ys)"
  by (induction xs arbitrary: a) (auto split: option.splits)

lemma read_nat_acc_zpad: "read_nat_acc a (zpad w n) = Some (a * 10 ^ w + n mod 10 ^ w)"
proof (induction w arbitrary: a n)
  case 0
  show ?case by simp
next
  case (Suc w)
  have m: "n mod (10 * 10 ^ w) = 10 * (n div 10 mod 10 ^ w) + n mod 10"
    by (simp add: mod_mult2_eq)
  show ?case
    by (simp add: read_nat_acc_append Suc.IH digit_of_digit_char m algebra_simps)
qed

lemma take_field_zpad: "n < 10 ^ w \<Longrightarrow> take_field w (zpad w n @ r) = Some (n, r)"
  by (simp add: take_field_def length_zpad read_nat_acc_zpad)

lemma take_field_zpad_end: "n < 10 ^ w \<Longrightarrow> take_field w (zpad w n) = Some (n, [])"
  using take_field_zpad [of n w "[]"] by simp

lemma take_number_zpad:
  "\<not> is_digit c \<Longrightarrow> lo \<le> n \<Longrightarrow> n \<le> hi \<Longrightarrow> n < 100 \<Longrightarrow>
     take_number lo hi (zpad 2 n @ c # r) = Some (n, c # r)"
  by (simp add: take_number_def takeWhile_zpad read_nat_acc_zpad length_zpad Let_def
      del: zpad.simps)
    (simp add: zpad_2)

lemma digit_char_not_space: "d < 10 \<Longrightarrow> digit_char d \<noteq> CHR '' ''"
  using is_digit_digit_char [of d] not_digit(6) by auto

lemma digit_char_not_colon: "d < 10 \<Longrightarrow> digit_char d \<noteq> CHR '':''"
  using is_digit_digit_char [of d] not_digit(3) by auto

lemma take_day_zpad:
  "\<not> is_digit c \<Longrightarrow> 1 \<le> n \<Longrightarrow> n \<le> 31 \<Longrightarrow> take_day (zpad 2 n @ c # r) = Some (n, c # r)"
  using take_number_zpad [of c 1 n 31 r] digit_char_not_space [of "n div 10 mod 10"]
  by (simp add: take_day_def zpad_2)

lemma zpad_6_nonempty: "zpad 6 u \<noteq> []"
  using length_zpad [of 6 u] by (auto simp del: zpad.simps)

lemma take_fraction_zpad:
  "\<not> is_digit c \<Longrightarrow> u < 1000000 \<Longrightarrow> take_fraction (zpad 6 u @ c # r) = Some (u, c # r)"
  "u < 1000000 \<Longrightarrow> take_fraction (zpad 6 u) = Some (u, [])"
  by (simp_all add: take_fraction_def takeWhile_zpad read_nat_acc_zpad length_zpad Let_def
      zpad_6_nonempty del: zpad.simps)

lemma offset_parts:
  fixes a :: nat
  shows "(a div 3600000000 * 3600 + a mod 3600000000 div 60000000 * 60) * 1000000 +
         (a mod 60000000 div 1000000 * 1000000 + a mod 1000000) = a"
proof -
  have m1: "a mod 3600000000 mod 60000000 = a mod 60000000"
    by (rule mod_mod_cancel) simp
  have m2: "a mod 60000000 mod 1000000 = a mod 1000000"
    by (rule mod_mod_cancel) simp
  have "a = a div 3600000000 * 3600000000 + a mod 3600000000"
    by simp
  also have "a mod 3600000000 = a mod 3600000000 div 60000000 * 60000000 + a mod 60000000"
    using div_mult_mod_eq [of "a mod 3600000000" 60000000] by (simp add: m1)
  also have "a mod 60000000 = a mod 60000000 div 1000000 * 1000000 + a mod 1000000"
    using div_mult_mod_eq [of "a mod 60000000" 1000000] by (simp add: m2)
  finally show ?thesis
    by (simp add: algebra_simps)
qed

lemma parse_z_digits:
  assumes "a < 86400000000" "c = CHR ''+'' \<or> c = CHR ''-''"
  shows "parse_z (c # zpad 2 (a div 3600000000) @ zpad 2 (a mod 3600000000 div 60000000) @
            (if a mod 1000000 \<noteq> 0
             then zpad 2 (a mod 60000000 div 1000000) @ ''.'' @ zpad 6 (a mod 1000000)
             else if a mod 60000000 div 1000000 \<noteq> 0
             then zpad 2 (a mod 60000000 div 1000000) else [])) =
         Some ((if c = CHR ''-'' then - 1 else 1) * int a)"
proof -
  let ?h = "a div 3600000000" and ?m = "a mod 3600000000 div 60000000"
  let ?s = "a mod 60000000 div 1000000" and ?u = "a mod 1000000"
  let ?tail = "if ?u \<noteq> 0 then zpad 2 ?s @ ''.'' @ zpad 6 ?u
               else if ?s \<noteq> 0 then zpad 2 ?s else []"
  have h: "?h < 10 ^ 2" and m: "?m < 10 ^ 2" "?m < 60" and s: "?s < 10 ^ 2" "?s < 60"
    and u: "?u < 1000000"
    using assms(1) by auto
  have colon_m: "skip_colon (zpad 2 ?m @ r) = (False, zpad 2 ?m @ r)" for r
    using digit_char_not_colon [of "?m div 10 mod 10"] by (simp add: skip_colon_def zpad_2)
  have colon_s: "skip_colon (zpad 2 ?s @ r) = (False, zpad 2 ?s @ r)" for r
    using digit_char_not_colon [of "?s div 10 mod 10"] by (simp add: skip_colon_def zpad_2)
  have ne: "zpad 2 ?s @ r \<noteq> []" for r
    by (simp add: zpad_2)
  have sec: "parse_z_seconds False ?tail = Some (?s * 1000000 + ?u)"
  proof (cases "?u \<noteq> 0")
    case True
    then show ?thesis
      using s(2) u colon_s [of "''.'' @ zpad 6 ?u"]
      by (simp add: parse_z_seconds_def ne take_field_zpad [OF s(1)] take_fraction_zpad(2)
          del: zpad.simps)
  next
    case False
    show ?thesis
    proof (cases "?s \<noteq> 0")
      case True
      then show ?thesis
        using False s(2) colon_s [of "[]"] ne [of "[]"]
        by (simp add: parse_z_seconds_def take_field_zpad_end [OF s(1)] del: zpad.simps)
    next
      case s0: False
      then show ?thesis
        using False by (simp add: parse_z_seconds_def)
    qed
  qed
  have z: "c # r \<noteq> ''Z''" for r
    using assms(2) by auto
  have "parse_z (c # zpad 2 ?h @ zpad 2 ?m @ ?tail) =
      Some ((if c = CHR ''-'' then - 1 else 1) * int ((?h * 3600 + ?m * 60) * 1000000 +
        (?s * 1000000 + ?u)))"
    using assms(2) m(2) sec
    by (simp only: parse_z_def z if_False list.case take_field_zpad [OF h] colon_m
        prod.case option.case take_field_zpad [OF m(1)])
      auto
  then show ?thesis
    by (simp only: offset_parts)
qed

lemma format_z_sign:
  "format_z (Some off) =
     (if off < 0 then CHR ''-'' else CHR ''+'') # tl (format_z (Some off))"
  by (simp add: format_z_def Let_def)

lemma parse_z_format_z:
  assumes "- 86400000000 < off" "off < 86400000000"
  shows "parse_z (format_z (Some off)) = Some off"
proof -
  define a where "a = nat \<bar>off\<bar>"
  define c where "c = (if off < 0 then CHR ''-'' else CHR ''+'')"
  have a: "a < 86400000000"
    using assms by (auto simp: a_def)
  have c: "c = CHR ''+'' \<or> c = CHR ''-''"
    by (simp add: c_def)
  have "parse_z (format_z (Some off)) = Some ((if c = CHR ''-'' then - 1 else 1) * int a)"
    unfolding format_z_def Let_def option.case a_def [symmetric] c_def [symmetric]
    by (rule parse_z_digits [OF a c])
  also have "(if c = CHR ''-'' then - 1 else 1) * int a = off"
    by (simp add: c_def a_def)
  finally show ?thesis .
qed

lemma format_Y_four: "1000 \<le> y \<Longrightarrow> format_Y y = zpad 4 y"
  by (simp add: format_Y_def)

lemma take_T: "take_T (CHR ''T'' # r) = Some r"
  by (simp add: take_T_def)

lemma parse_fields_strftime:
  assumes "valid_datetime t" "utcoffset t = Some off" "1000 \<le> year t"
  shows "parse_fields (strftime t) = Some t"
proof -
  from assms(1) have y: "year t < 10 ^ 4"
    and mo: "1 \<le> month t" "month t \<le> 12" "month t < 100"
    and d: "1 \<le> day t" "day t \<le> 31" "day t < 100"
    and h: "0 \<le> hour t" "hour t \<le> 23" "hour t < 100"
    and mi: "0 \<le> minute t" "minute t \<le> 59" "minute t < 100"
    and se: "0 \<le> second t" "second t \<le> 61" "second t < 100"
    and us: "microsecond t < 1000000"
    by (auto simp: valid_datetime_def days_in_month_def split: if_splits)
  have z: "parse_z (format_z (Some off)) = Some off"
    using assms(1,2) by (intro parse_z_format_z) (auto simp: valid_datetime_def)
  have sg: "\<not> is_digit (if off < 0 then CHR ''-'' else CHR ''+'')"
    by (simp add: not_digit)
  have f: "take_fraction (zpad 6 (microsecond t) @ format_z (Some off)) =
      Some (microsecond t, format_z (Some off))"
    using take_fraction_zpad(1) [OF sg us, of "tl (format_z (Some off))"]
    by (simp add: format_z_sign [symmetric])
  show ?thesis
    using assms(2)
    by (simp add: parse_fields_def strftime_def format_Y_four [OF assms(3)]
        take_field_zpad [OF y] take_number_zpad [OF not_digit(1) mo]
        take_day_zpad [OF not_digit(5) d(1,2)] take_T
        take_number_zpad [OF not_digit(3) h] take_number_zpad [OF not_digit(3) mi]
        take_number_zpad [OF not_digit(4) se] f z
        del: zpad.simps One_nat_def)
qed

lemma strptime_strftime:
  "valid_datetime t \<Longrightarrow> utcoffset t = Some off \<Longrightarrow> 1000 \<le> year t \<Longrightarrow>
     strptime (strftime t) = Inr t"
  by (simp add: strptime_def parse_fields_strftime)

lemma strptime_error: "strptime s = Inl e \<Longrightarrow> e = ValueError"
  by (auto simp: strptime_def split: option.splits if_splits)

lemma strptime_small_year:
  assumes "year t < 1000"
  shows "strptime (strftime t) = Inl ValueError"
proof -
  have "\<exists>w. format_Y (year t) = zpad w (year t) \<and> w < 4"
  proof (cases "year t < 10")
    case True
    then show ?thesis by (intro exI [of _ 1]) (simp add: format_Y_def)
  next
    case False
    show ?thesis
    proof (cases "year t < 100")
      case True
      with False show ?thesis by (intro exI [of _ 2]) (simp add: format_Y_def)
    next
      case f: False
      with False assms show ?thesis by (intro exI [of _ 3]) (simp add: format_Y_def)
    qed
  qed
  then obtain w where w: "format_Y (year t) = zpad w (year t)" "w < 4"
    by blast
  have suc: "4 - w = Suc (3 - w)"
    using w(2) by simp
  have "take_field 4 (zpad w (year t) @ CHR ''-'' # r) = None" for r
    by (simp add: take_field_def length_zpad read_nat_acc_append read_nat_acc_zpad digit_of_def
        suc del: zpad.simps)
  then show ?thesis
    by (simp add: strptime_def parse_fields_def strftime_def w(1) del: zpad.simps)
qed

lemma strptime_example:
  "strptime ''2020-01-02T03:04:05.000006-0300'' =
     Inr \<lparr>year = 2020, month = 1, day = 2, hour = 3, minute = 4, second = 5,
          microsecond = 6, utcoffset = Some (- 10800000000)\<rparr>"
  by (simp add: strptime_def parse_fields_def take_field_def take_number_def take_day_def
      take_fraction_def take_T_def parse_z_def parse_z_seconds_def skip_colon_def
      is_digit_def digit_of_def valid_datetime_def days_in_month_def is_leap_def)

subsection \<open>Lemmas on dictionaries and the codec\<close>

lemma update_fresh: "k \<notin> fst ` set al \<Longrightarrow> AList.update k v al = al @ [(k, v)]"
  by (induction al) auto

lemma map_of_dict_update: "map_of (dict_update d ps) = map_of d ++ map_of (rev ps)"
proof (induction ps arbitrary: d)
  case Nil
  show ?case by (simp add: dict_update_def)
next
  case (Cons p ps)
  obtain k v where p: "p = (k, v)" by (cases p)
  have "dict_update d (p # ps) = dict_update (AList.update k v d) ps"
    by (simp add: dict_update_def p)
  then show ?case
    by (auto simp: Cons.IH update_conv p map_add_def fun_eq_iff split: option.splits)
qed

lemma decode_PyStr: "decode j = Inr (PyStr s) \<longleftrightarrow> j = JString s"
  by (cases j) (auto simp: object_hook_def split: sum.splits option.splits pyval.splits)

lemma sequence_Inr_iff:
  "sequence xs = Inr vs \<longleftrightarrow> list_all2 (\<lambda>x v. x = Inr v) xs vs"
proof (induction xs arbitrary: vs)
  case Nil
  show ?case by auto
next
  case (Cons x xs)
  show ?case
    by (cases vs) (auto simp: Cons.IH [symmetric] split: sum.splits)
qed

lemma members_tag:
  assumes "list_all2 (\<lambda>kj kv. fst kj = fst kv \<and> decode (snd kj) = Inr (snd kv)) kjs kvs"
  shows "map_of kvs k = Some (PyStr s) \<longleftrightarrow> map_of kjs k = Some (JString s)"
  using assms
  by (induction kjs kvs rule: list_all2_induct) (auto simp: decode_PyStr)

lemma members_decoded:
  assumes "sequence (map (\<lambda>kj. decode (snd kj)) kjs) = Inr vs"
  shows "list_all2 (\<lambda>kj kv. fst kj = fst kv \<and> decode (snd kj) = Inr (snd kv))
           kjs (zip (map fst kjs) vs)"
proof -
  from assms have a: "list_all2 (\<lambda>kj v. decode (snd kj) = Inr v) kjs vs"
    by (simp add: sequence_Inr_iff list_all2_map1)
  then have "length kjs = length vs" by (rule list_all2_lengthD)
  with a show ?thesis
    by (auto simp: list_all2_conv_all_nth)
qed

lemma dict_update_distinct:
  "distinct (map fst (d @ ps)) \<Longrightarrow> dict_update d ps = d @ ps"
proof (induction ps arbitrary: d)
  case Nil
  then show ?case by (simp add: dict_update_def)
next
  case (Cons p ps)
  obtain k v where p: "p = (k, v)" by (cases p)
  from Cons.prems have fresh: "k \<notin> fst ` set d" and d: "distinct (map fst ((d @ [(k, v)]) @ ps))"
    by (auto simp: p)
  have "dict_update d (p # ps) = dict_update (AList.update k v d) ps"
    by (simp add: dict_update_def p)
  also have "\<dots> = dict_update (d @ [(k, v)]) ps"
    by (simp add: update_fresh [OF fresh])
  also have "\<dots> = (d @ [(k, v)]) @ ps"
    by (rule Cons.IH [OF d])
  finally show ?case by (simp add: p)
qed

lemma dict_of_pairs_distinct: "distinct (map fst ps) \<Longrightarrow> dict_of_pairs ps = ps"
  using dict_update_distinct [of "[]" ps] by (simp add: dict_of_pairs_def)

lemma sequence_roundtrip:
  assumes "\<And>x. x \<in> set xs \<Longrightarrow> \<exists>j. f x = Inr j \<and> g j = Inr x"
  shows "\<exists>js. sequence (map f xs) = Inr js \<and> length js = length xs \<and>
              sequence (map g js) = Inr xs"
  using assms
proof (induction xs)
  case Nil
  then show ?case by simp
next
  case (Cons x xs)
  from Cons.prems obtain j where j: "f x = Inr j" "g j = Inr x" by auto
  from Cons obtain js where js: "sequence (map f xs) = Inr js" "length js = length xs"
    "sequence (map g js) = Inr xs" by auto
  show ?case
    by (rule exI [of _ "j # js"]) (simp add: j js)
qed

text \<open>The encoder serialises what \<open>default\<close> returns for an object it does not know.\<close>

lemma encode_default:
  "encode (PyDatetime t) = (case default (PyDatetime t) of Inl e \<Rightarrow> Inl e | Inr d \<Rightarrow> encode d)"
  "encode (PyObject n) = (case default (PyObject n) of Inl e \<Rightarrow> Inl e | Inr d \<Rightarrow> encode d)"
  by simp_all

lemma decode_tagged:
  "decode (JObject [(''__datetime__'', JString s)]) =
     (case strptime s of Inl e \<Rightarrow> Inl e | Inr t \<Rightarrow> Inr (PyDatetime t))"
  by (simp add: object_hook_def dict_of_pairs_def dict_update_def)

lemma encode_decode_ex:
  "json_value v \<Longrightarrow> no_tag_key v \<Longrightarrow> \<exists>j. encode v = Inr j \<and> decode j = Inr v"
proof (induction v)
  case (PyList xs)
  have "\<And>x. x \<in> set xs \<Longrightarrow> \<exists>j. encode x = Inr j \<and> decode j = Inr x"
    using PyList by (auto simp: list_all_iff)
  from sequence_roundtrip [of xs encode decode, OF this]
  obtain js where "sequence (map encode xs) = Inr js" "sequence (map decode js) = Inr xs"
    by auto
  then show ?case by simp
next
  case (PyDict kvs)
  have "\<And>x. x \<in> set (map snd kvs) \<Longrightarrow> \<exists>j. encode x = Inr j \<and> decode j = Inr x"
    using PyDict by (fastforce simp: list_all_iff)
  from sequence_roundtrip [of "map snd kvs" encode decode, OF this]
  obtain js where js: "sequence (map encode (map snd kvs)) = Inr js" "length js = length kvs"
    "sequence (map decode js) = Inr (map snd kvs)"
    by auto
  have e: "encode (PyDict kvs) = Inr (JObject (zip (map fst kvs) js))"
    using js(1) by (simp add: comp_def)
  have s: "map (\<lambda>kj. decode (snd kj)) (zip (map fst kvs) js) = map decode js"
    using js(2) by (simp add: map_snd_zip flip: map_map [unfolded comp_def])
  have f: "map fst (zip (map fst kvs) js) = map fst kvs"
    using js(2) by simp
  have none: "map_of kvs ''__datetime__'' = None"
    using PyDict.prems(2) by (simp add: map_of_eq_None_iff)
  have "decode (JObject (zip (map fst kvs) js)) = object_hook (dict_of_pairs kvs)"
    by (simp add: s js(3) f zip_map_fst_snd del: map_map)
  also have "\<dots> = Inr (PyDict kvs)"
    using PyDict.prems(1) none by (simp add: dict_of_pairs_distinct object_hook_def)
  finally show ?case using e by simp
next
  case (PyDatetime t)
  then obtain off where "utcoffset t = Some off" "valid_datetime t" "1000 \<le> year t" by auto
  then show ?case
    by (simp add: decode_tagged strptime_strftime del: decode.simps)
qed simp_all

subsection \<open>The round-trip law\<close>

lemma json_value_record_value: "json_value v \<Longrightarrow> record_value v"
proof (induction v)
  case (PyList xs)
  then show ?case by (auto simp: list_all_iff)
next
  case (PyDict kvs)
  have "\<And>kv. kv \<in> set kvs \<Longrightarrow> json_value (snd kv) \<Longrightarrow> record_value (snd kv)"
    using PyDict.IH by (case_tac kv) auto
  with PyDict.prems show ?case by (auto simp: list_all_iff)
qed simp_all

text \<open>
  C1, as amended. For every value built from \<^verbatim>\<open>None\<close>, booleans, integers, floats
  that are no NaN, strings, lists, dictionaries and timestamps with a UTC offset and a
  year of four digits, in which no dictionary has the key \<^verbatim>\<open>'__datetime__'\<close>, decoding
  the encoding of the value gives the value back: a timestamp comes back as a timestamp.
\<close>

theorem decode_encode_roundtrip:
  "json_value v \<Longrightarrow> no_tag_key v \<Longrightarrow> decode_encode v = Inr v"
  using encode_decode_ex [of v] by (auto simp: decode_encode_def)

theorem decode_encode_roundtrip_witness:
  "json_value (PyDict [(''step'', PyInt 1), (''ratio'', PyFloat (Float False 1022 0)),
     (''seen'', PyList [PyNone, PyBool True, PyStr ''a'']),
     (''ts'', PyDatetime \<lparr>year = 2020, month = 1, day = 2, hour = 3, minute = 4, second = 5,
        microsecond = 6, utcoffset = Some (- 10800000000)\<rparr>),
     (''lmt'', PyDatetime \<lparr>year = 1000, month = 2, day = 28, hour = 23, minute = 59,
        second = 59, microsecond = 0, utcoffset = Some 10807000005\<rparr>)]) \<and>
   no_tag_key (PyDict [(''step'', PyInt 1), (''ratio'', PyFloat (Float False 1022 0)),
     (''seen'', PyList [PyNone, PyBool True, PyStr ''a'']),
     (''ts'', PyDatetime \<lparr>year = 2020, month = 1, day = 2, hour = 3, minute = 4, second = 5,
        microsecond = 6, utcoffset = Some (- 10800000000)\<rparr>),
     (''lmt'', PyDatetime \<lparr>year = 1000, month = 2, day = 28, hour = 23, minute = 59,
        second = 59, microsecond = 0, utcoffset = Some 10807000005\<rparr>)]) \<and>
   decode_encode (PyDict [(''step'', PyInt 1), (''ratio'', PyFloat (Float False 1022 0)),
     (''seen'', PyList [PyNone, PyBool True, PyStr ''a'']),
     (''ts'', PyDatetime \<lparr>year = 2020, month = 1, day = 2, hour = 3, minute = 4, second = 5,
        microsecond = 6, utcoffset = Some (- 10800000000)\<rparr>),
     (''lmt'', PyDatetime \<lparr>year = 1000, month = 2, day = 28, hour = 23, minute = 59,
        second = 59, microsecond = 0, utcoffset = Some 10807000005\<rparr>)]) =
   Inr (PyDict [(''step'', PyInt 1), (''ratio'', PyFloat (Float False 1022 0)),
     (''seen'', PyList [PyNone, PyBool True, PyStr ''a'']),
     (''ts'', PyDatetime \<lparr>year = 2020, month = 1, day = 2, hour = 3, minute = 4, second = 5,
        microsecond = 6, utcoffset = Some (- 10800000000)\<rparr>),
     (''lmt'', PyDatetime \<lparr>year = 1000, month = 2, day = 28, hour = 23, minute = 59,
        second = 59, microsecond = 0, utcoffset = Some 10807000005\<rparr>)])"
proof -
  let ?v = "PyDict [(''step'', PyInt 1), (''ratio'', PyFloat (Float False 1022 0)),
     (''seen'', PyList [PyNone, PyBool True, PyStr ''a'']),
     (''ts'', PyDatetime \<lparr>year = 2020, month = 1, day = 2, hour = 3, minute = 4, second = 5,
        microsecond = 6, utcoffset = Some (- 10800000000)\<rparr>),
     (''lmt'', PyDatetime \<lparr>year = 1000, month = 2, day = 28, hour = 23, minute = 59,
        second = 59, microsecond = 0, utcoffset = Some 10807000005\<rparr>)]"
  have a: "json_value ?v"
    by (simp add: valid_datetime_def days_in_month_def is_leap_def)
  have b: "no_tag_key ?v"
    by simp
  show ?thesis
    using decode_encode_roundtrip [OF a b] a b by simp
qed

text \<open>
  The law fails as C1 states it, on three values a record may hold. A dictionary of
  strings whose only key is \<^verbatim>\<open>'__datetime__'\<close> comes back as a timestamp. A timestamp
  of the year 999 is written with a year of three digits, which \<^verbatim>\<open>strptime\<close> does not
  read: decoding raises. A NaN of negative sign is written as \<^verbatim>\<open>NaN\<close> and comes back
  as \<^verbatim>\<open>float('nan')\<close>, another float (and no NaN is equal to any float).
\<close>

theorem decode_encode_counterexample:
  "record_value (PyDict [(''__datetime__'', PyStr ''2020-01-02T03:04:05.000006-0300'')]) \<and>
   decode_encode (PyDict [(''__datetime__'', PyStr ''2020-01-02T03:04:05.000006-0300'')]) =
     Inr (PyDatetime \<lparr>year = 2020, month = 1, day = 2, hour = 3, minute = 4, second = 5,
            microsecond = 6, utcoffset = Some (- 10800000000)\<rparr>) \<and>
   decode_encode (PyDict [(''__datetime__'', PyStr ''2020-01-02T03:04:05.000006-0300'')]) \<noteq>
     Inr (PyDict [(''__datetime__'', PyStr ''2020-01-02T03:04:05.000006-0300'')]) \<and>
   record_value (PyDatetime \<lparr>year = 999, month = 1, day = 2, hour = 3, minute = 4, second = 5,
            microsecond = 6, utcoffset = Some (- 10800000000)\<rparr>) \<and>
   decode_encode (PyDatetime \<lparr>year = 999, month = 1, day = 2, hour = 3, minute = 4, second = 5,
            microsecond = 6, utcoffset = Some (- 10800000000)\<rparr>) = Inl ValueError \<and>
   record_value (PyFloat (Float True 2047 2251799813685248)) \<and>
   decode_encode (PyFloat (Float True 2047 2251799813685248)) =
     Inr (PyFloat (Float False 2047 2251799813685248)) \<and>
   decode_encode (PyFloat (Float True 2047 2251799813685248)) \<noteq>
     Inr (PyFloat (Float True 2047 2251799813685248))"
proof -
  let ?t = "\<lparr>year = 999, month = 1, day = 2, hour = 3, minute = 4, second = 5,
            microsecond = 6, utcoffset = Some (- 10800000000)\<rparr>"
  have a: "record_value (PyDatetime ?t)"
    by (simp add: valid_datetime_def days_in_month_def is_leap_def)
  have b: "decode_encode (PyDatetime ?t) = Inl ValueError"
    using strptime_small_year [of ?t]
    by (simp add: decode_encode_def decode_tagged del: decode.simps)
  have c: "decode_encode (PyFloat (Float True 2047 2251799813685248)) =
     Inr (PyFloat (Float False 2047 2251799813685248))"
    by (simp add: decode_encode_def nan_def)
  show ?thesis
    using a b c
    by (simp add: decode_encode_def decode_tagged strptime_example del: decode.simps)
qed

subsection \<open>The timestamp tag when decoding\<close>

text \<open>
  C5, as amended. Decoding an object gives a timestamp exactly when its members decode
  and its member \<^verbatim>\<open>'__datetime__'\<close> (the last of that name) is a string in the fixed
  format, whatever other members the object has; an object with no member of that name
  decodes as the plain dictionary of its decoded members.
\<close>

theorem decode_object_timestamp:
  "((decode (JObject kjs) = Inr (PyDatetime t)) =
     (\<exists>vs s. sequence (map (\<lambda>kj. decode (snd kj)) kjs) = Inr vs \<and>
        map_of (rev kjs) ''__datetime__'' = Some (JString s) \<and> strptime s = Inr t)) \<and>
   (''__datetime__'' \<notin> set (map fst kjs) \<longrightarrow>
      sequence (map (\<lambda>kj. decode (snd kj)) kjs) = Inr ws \<longrightarrow>
      decode (JObject kjs) = Inr (PyDict (dict_of_pairs (zip (map fst kjs) ws))))"
proof
  show "(decode (JObject kjs) = Inr (PyDatetime t)) =
     (\<exists>vs s. sequence (map (\<lambda>kj. decode (snd kj)) kjs) = Inr vs \<and>
        map_of (rev kjs) ''__datetime__'' = Some (JString s) \<and> strptime s = Inr t)"
  proof (cases "sequence (map (\<lambda>kj. decode (snd kj)) kjs)")
    case (Inl e)
    then show ?thesis by simp
  next
    case (Inr vs)
    let ?obj = "dict_of_pairs (zip (map fst kjs) vs)"
    have "list_all2 (\<lambda>kj kv. fst kj = fst kv \<and> decode (snd kj) = Inr (snd kv))
             (rev kjs) (rev (zip (map fst kjs) vs))"
      using members_decoded [OF Inr] by (simp add: list_all2_rev)
    from members_tag [OF this]
    have m: "\<And>s. map_of ?obj ''__datetime__'' = Some (PyStr s) \<longleftrightarrow>
        map_of (rev kjs) ''__datetime__'' = Some (JString s)"
      by (simp add: dict_of_pairs_def map_of_dict_update)
    have "(object_hook ?obj = Inr (PyDatetime t)) =
        (\<exists>s. map_of ?obj ''__datetime__'' = Some (PyStr s) \<and> strptime s = Inr t)"
      by (auto simp: object_hook_def split: option.splits pyval.splits sum.splits)
    then show ?thesis using Inr by (simp add: m)
  qed
next
  show "''__datetime__'' \<notin> set (map fst kjs) \<longrightarrow>
      sequence (map (\<lambda>kj. decode (snd kj)) kjs) = Inr ws \<longrightarrow>
      decode (JObject kjs) = Inr (PyDict (dict_of_pairs (zip (map fst kjs) ws)))"
  proof (intro impI)
    assume k: "''__datetime__'' \<notin> set (map fst kjs)"
      and ws: "sequence (map (\<lambda>kj. decode (snd kj)) kjs) = Inr ws"
    have "''__datetime__'' \<notin> fst ` set (rev (zip (map fst kjs) ws))"
      using k by (auto dest: set_zip_leftD)
    then have "map_of (dict_of_pairs (zip (map fst kjs) ws)) ''__datetime__'' = None"
      by (simp add: dict_of_pairs_def map_of_dict_update map_of_eq_None_iff del: set_rev)
    then show "decode (JObject kjs) = Inr (PyDict (dict_of_pairs (zip (map fst kjs) ws)))"
      using ws by (simp add: object_hook_def)
  qed
qed

theorem decode_object_timestamp_witness:
  "decode (JObject [(''__datetime__'', JString ''2020-01-02T03:04:05.000006-0300'')]) =
     Inr (PyDatetime \<lparr>year = 2020, month = 1, day = 2, hour = 3, minute = 4, second = 5,
            microsecond = 6, utcoffset = Some (- 10800000000)\<rparr>) \<and>
   ''__datetime__'' \<notin> set (map fst [(''x'', JInt 1)]) \<and>
   sequence (map (\<lambda>kj. decode (snd kj)) [(''x'', JInt 1)]) = Inr [PyInt 1] \<and>
   decode (JObject [(''x'', JInt 1)]) = Inr (PyDict [(''x'', PyInt 1)])"
proof -
  let ?s = "''2020-01-02T03:04:05.000006-0300''"
  let ?t = "\<lparr>year = 2020, month = 1, day = 2, hour = 3, minute = 4, second = 5,
            microsecond = 6, utcoffset = Some (- 10800000000)\<rparr>"
  have "sequence (map (\<lambda>kj. decode (snd kj)) [(''__datetime__'', JString ?s)]) = Inr [PyStr ?s] \<and>
        map_of (rev [(''__datetime__'', JString ?s)]) ''__datetime__'' = Some (JString ?s) \<and>
        strptime ?s = Inr ?t"
    by (simp add: strptime_example)
  then have a: "decode (JObject [(''__datetime__'', JString ?s)]) = Inr (PyDatetime ?t)"
    using decode_object_timestamp [of "[(''__datetime__'', JString ?s)]" ?t "[]"] by blast
  have k: "''__datetime__'' \<notin> set (map fst [(''x'', JInt 1)])"
    by simp
  have w: "sequence (map (\<lambda>kj. decode (snd kj)) [(''x'', JInt 1)]) = Inr [PyInt 1]"
    by simp
  have "decode (JObject [(''x'', JInt 1)]) =
        Inr (PyDict (dict_of_pairs (zip (map fst [(''x'', JInt 1)]) [PyInt 1])))"
    using decode_object_timestamp [of "[(''x'', JInt 1)]" ?t "[PyInt 1]"] k w by blast
  then have b: "decode (JObject [(''x'', JInt 1)]) = Inr (PyDict [(''x'', PyInt 1)])"
    by (simp add: dict_of_pairs_def dict_update_def)
  show ?thesis using a b k w by simp
qed

text \<open>
  C5 fails as stated: an object of two members, which is not of the single-field shape,
  is converted into a timestamp, and does not decode as a plain dictionary.
\<close>

theorem decode_two_members_counterexample:
  "decode (JObject [(''__datetime__'', JString ''2020-01-02T03:04:05.000006-0300''),
                    (''x'', JInt 1)]) =
     Inr (PyDatetime \<lparr>year = 2020, month = 1, day = 2, hour = 3, minute = 4, second = 5,
            microsecond = 6, utcoffset = Some (- 10800000000)\<rparr>)"
  by (simp add: object_hook_def dict_of_pairs_def dict_update_def strptime_example)

text \<open>
  C6. Decoding a tagged object whose string is not in the fixed format raises: the
  result is the \<^verbatim>\<open>ValueError\<close> of \<^verbatim>\<open>strptime\<close>, not a string and not a dictionary.
\<close>

theorem decode_tagged_bad_format:
  "strptime s = Inl e \<Longrightarrow> decode (JObject [(''__datetime__'', JString s)]) = Inl ValueError"
  using strptime_error [of s e] by (simp add: decode_tagged del: decode.simps)

theorem decode_tagged_bad_format_witness:
  "strptime ''yesterday'' = Inl ValueError \<and>
   decode (JObject [(''__datetime__'', JString ''yesterday'')]) = Inl ValueError"
proof -
  have a: "strptime ''yesterday'' = Inl ValueError"
    by (simp add: strptime_def parse_fields_def take_field_def digit_of_def)
  show ?thesis
    using decode_tagged_bad_format [OF a] a by simp
qed

subsection \<open>Lemmas on the state store\<close>

lemma set_state_eq:
  "set_state state_id chat_id r w =
     (let kept = AList.delete ''__memory__'' (items (heap w ! r));
          w2 = w\<lparr>heap := heap w @ [\<lparr>items = kept, dump_function = None\<rparr>]\<rparr>
      in case map_of (table w) (chat_id, state_id) of
           None \<Rightarrow>
             (case encode (PyDict kept) of
                Inl e \<Rightarrow> (Inl e, w2)
              | Inr t \<Rightarrow> (Inr (), w2\<lparr>table := table w @ [((chat_id, state_id), t)]\<rparr>))
         | Some text \<Rightarrow>
             (case decode text of
                Inl e \<Rightarrow> (Inl e, w2)
              | Inr info \<Rightarrow>
                  (case update_method info kept of
                     Inl e \<Rightarrow> (Inl e, w2)
                   | Inr info' \<Rightarrow>
                       (case encode info' of
                          Inl e \<Rightarrow> (Inl e, w2)
                        | Inr t \<Rightarrow>
                            (Inr (),
                             w2\<lparr>table := AList.update (chat_id, state_id) t (table w)\<rparr>)))))"
  by (simp add: set_state_def dict_copy_def dict_pop_def State_getitem_def State_set_info_def
      State_new_def json_encode_def json_decode_def Let_def
      split: option.splits sum.splits)

lemma get_state_eq:
  "get_state state_id chat_id w =
     (case map_of (table w) (chat_id, state_id) of
        None \<Rightarrow> Inr (PyDict []) | Some text \<Rightarrow> decode text)"
  by (simp add: get_state_def State_get_def json_decode_def split: option.splits)

lemma set_state_heap:
  "heap (snd (set_state state_id chat_id r w)) =
     heap w @ [\<lparr>items = AList.delete ''__memory__'' (items (heap w ! r)), dump_function = None\<rparr>]"
  by (simp add: set_state_eq Let_def split: option.splits sum.splits)

subsection \<open>The argument of \<^verbatim>\<open>set_state\<close>\<close>

text \<open>
  C10. \<^verbatim>\<open>set_state\<close> does not change the dictionary its caller passes, with or without
  the scratch field in it: the object at the caller's reference is the same after the
  call, and so is every object the heap held before it. The scratch field is popped on
  the copy.
\<close>

theorem set_state_keeps_argument:
  "r < length (heap w) \<Longrightarrow>
     heap (snd (set_state state_id chat_id r w)) ! r = heap w ! r \<and>
     take (length (heap w)) (heap (snd (set_state state_id chat_id r w))) = heap w"
  by (simp add: set_state_heap nth_append)


theorem set_state_keeps_argument_witness:
  "(0::nat) < length (heap
     \<lparr>heap = [\<lparr>items = [(''step'', PyInt 1), (''__memory__'', PyDict [(''n'', PyInt 2)])],
               dump_function = None\<rparr>],
      table = []\<rparr>) \<and>
   heap (snd (set_state ''flow'' 42 0
     \<lparr>heap = [\<lparr>items = [(''step'', PyInt 1), (''__memory__'', PyDict [(''n'', PyInt 2)])],
               dump_function = None\<rparr>],
      table = []\<rparr>)) ! 0 =
     \<lparr>items = [(''step'', PyInt 1), (''__memory__'', PyDict [(''n'', PyInt 2)])],
      dump_function = None\<rparr> \<and>
   table (snd (set_state ''flow'' 42 0
     \<lparr>heap = [\<lparr>items = [(''step'', PyInt 1), (''__memory__'', PyDict [(''n'', PyInt 2)])],
               dump_function = None\<rparr>],
      table = []\<rparr>)) = [((42, ''flow''), JObject [(''step'', JInt 1)])]"
proof -
  let ?w = "\<lparr>heap = [\<lparr>items = [(''step'', PyInt 1), (''__memory__'', PyDict [(''n'', PyInt 2)])],
               dump_function = None\<rparr>],
      table = []\<rparr>"
  have a: "(0::nat) < length (heap ?w)"
    by simp
  have t: "table (snd (set_state ''flow'' 42 0 ?w)) = [((42, ''flow''), JObject [(''step'', JInt 1)])]"
    by (simp add: set_state_eq Let_def)
  show ?thesis
    using set_state_keeps_argument [OF a, of "''flow''" 42] a t by simp
qed

subsection \<open>Reading and writing a record\<close>

text \<open>
  C3. A lookup miss is no error: for a key with no row \<^verbatim>\<open>get_state\<close> returns the
  empty dictionary; \<^verbatim>\<open>set_state\<close> with \<^verbatim>\<open>{'x': 1}\<close> on that key then succeeds, by
  the insert branch, and \<^verbatim>\<open>get_state\<close> returns \<^verbatim>\<open>{'x': 1}\<close>.
\<close>

theorem get_miss_then_create:
  assumes "State_get (chat_id, state_id) w = None"
    and "items (heap w ! r) = [(''x'', PyInt 1)]"
  shows "get_state state_id chat_id w = Inr (PyDict []) \<and>
         fst (set_state state_id chat_id r w) = Inr () \<and>
         get_state state_id chat_id (snd (set_state state_id chat_id r w)) =
           Inr (PyDict [(''x'', PyInt 1)])"
  using assms
  by (simp add: set_state_eq get_state_eq State_get_def dict_update_def
      dict_of_pairs_def object_hook_def map_add_def)


theorem get_miss_then_create_witness:
  "State_get (42, ''flow'')
     \<lparr>heap = [\<lparr>items = [(''x'', PyInt 1)], dump_function = None\<rparr>],
      table = [((7, ''flow''), JObject [])]\<rparr> = None \<and>
   get_state ''flow'' 42
     \<lparr>heap = [\<lparr>items = [(''x'', PyInt 1)], dump_function = None\<rparr>],
      table = [((7, ''flow''), JObject [])]\<rparr> = Inr (PyDict []) \<and>
   fst (set_state ''flow'' 42 0
     \<lparr>heap = [\<lparr>items = [(''x'', PyInt 1)], dump_function = None\<rparr>],
      table = [((7, ''flow''), JObject [])]\<rparr>) = Inr () \<and>
   get_state ''flow'' 42 (snd (set_state ''flow'' 42 0
     \<lparr>heap = [\<lparr>items = [(''x'', PyInt 1)], dump_function = None\<rparr>],
      table = [((7, ''flow''), JObject [])]\<rparr>)) = Inr (PyDict [(''x'', PyInt 1)])"
proof -
  let ?w = "\<lparr>heap = [\<lparr>items = [(''x'', PyInt 1)], dump_function = None\<rparr>],
      table = [((7, ''flow''), JObject [])]\<rparr>"
  have a: "State_get (42, ''flow'') ?w = None"
    by (simp add: State_get_def)
  have b: "items (heap ?w ! 0) = [(''x'', PyInt 1)]"
    by simp
  show ?thesis
    using get_miss_then_create [OF a b] a by simp
qed

text \<open>
  C2. \<^verbatim>\<open>set_state\<close> merges: when the row of the key decodes to \<^verbatim>\<open>{'a': 1, 'b': 2}\<close>,
  the call with \<^verbatim>\<open>{'b': 3, 'c': 4}\<close> succeeds and the row then decodes to
  \<^verbatim>\<open>{'a': 1, 'b': 3, 'c': 4}\<close>.
\<close>

theorem set_state_merge:
  assumes "State_get (chat_id, state_id) w = Some info"
    and "json_decode info = Inr (PyDict [(''a'', PyInt 1), (''b'', PyInt 2)])"
    and "items (heap w ! r) = [(''b'', PyInt 3), (''c'', PyInt 4)]"
  shows "fst (set_state state_id chat_id r w) = Inr () \<and>
         get_state state_id chat_id (snd (set_state state_id chat_id r w)) =
           Inr (PyDict [(''a'', PyInt 1), (''b'', PyInt 3), (''c'', PyInt 4)])"
  using assms
  by (simp add: set_state_eq get_state_eq State_get_def json_decode_def dict_update_def
      dict_of_pairs_def object_hook_def update_conv)

theorem set_state_merge_witness:
  "State_get (42, ''flow'')
     \<lparr>heap = [\<lparr>items = [(''b'', PyInt 3), (''c'', PyInt 4)], dump_function = None\<rparr>],
      table = [((42, ''flow''), JObject [(''a'', JInt 1), (''b'', JInt 2)])]\<rparr> =
     Some (JObject [(''a'', JInt 1), (''b'', JInt 2)]) \<and>
   json_decode (JObject [(''a'', JInt 1), (''b'', JInt 2)]) =
     Inr (PyDict [(''a'', PyInt 1), (''b'', PyInt 2)]) \<and>
   table (snd (set_state ''flow'' 42 0
     \<lparr>heap = [\<lparr>items = [(''b'', PyInt 3), (''c'', PyInt 4)], dump_function = None\<rparr>],
      table = [((42, ''flow''), JObject [(''a'', JInt 1), (''b'', JInt 2)])]\<rparr>)) =
     [((42, ''flow''), JObject [(''a'', JInt 1), (''b'', JInt 3), (''c'', JInt 4)])] \<and>
   get_state ''flow'' 42 (snd (set_state ''flow'' 42 0
     \<lparr>heap = [\<lparr>items = [(''b'', PyInt 3), (''c'', PyInt 4)], dump_function = None\<rparr>],
      table = [((42, ''flow''), JObject [(''a'', JInt 1), (''b'', JInt 2)])]\<rparr>)) =
     Inr (PyDict [(''a'', PyInt 1), (''b'', PyInt 3), (''c'', PyInt 4)])"
proof -
  let ?w = "\<lparr>heap = [\<lparr>items = [(''b'', PyInt 3), (''c'', PyInt 4)], dump_function = None\<rparr>],
      table = [((42, ''flow''), JObject [(''a'', JInt 1), (''b'', JInt 2)])]\<rparr>"
  have a: "State_get (42, ''flow'') ?w = Some (JObject [(''a'', JInt 1), (''b'', JInt 2)])"
    by (simp add: State_get_def)
  have b: "json_decode (JObject [(''a'', JInt 1), (''b'', JInt 2)]) =
     Inr (PyDict [(''a'', PyInt 1), (''b'', PyInt 2)])"
    by (simp add: json_decode_def dict_update_def dict_of_pairs_def object_hook_def)
  have c: "items (heap ?w ! 0) = [(''b'', PyInt 3), (''c'', PyInt 4)]"
    by simp
  have t: "table (snd (set_state ''flow'' 42 0 ?w)) =
     [((42, ''flow''), JObject [(''a'', JInt 1), (''b'', JInt 3), (''c'', JInt 4)])]"
    by (simp add: set_state_eq dict_update_def dict_of_pairs_def object_hook_def Let_def)
  show ?thesis
    using set_state_merge [OF a b c] a b t by simp
qed

subsection \<open>Values the encoder does not know\<close>

lemma isl_sequence: "isl (sequence xs) = list_ex isl xs"
  by (induction xs) (auto split: sum.splits)

lemma isl_encode: "isl (encode v) = has_unsupported v"
proof (induction v)
  case (PyList xs)
  then have "list_ex isl (map encode xs) = list_ex has_unsupported xs"
    by (auto simp: list_ex_iff)
  then have "isl (sequence (map encode xs)) = list_ex has_unsupported xs"
    by (simp add: isl_sequence)
  then show ?case by (auto split: sum.splits)
next
  case (PyDict kvs)
  have "\<And>kv. kv \<in> set kvs \<Longrightarrow> isl (encode (snd kv)) = has_unsupported (snd kv)"
    using PyDict by (case_tac kv) auto
  then have "list_ex isl (map (\<lambda>kv. encode (snd kv)) kvs) =
      list_ex (\<lambda>kv. has_unsupported (snd kv)) kvs"
    by (auto simp: list_ex_iff)
  then have "isl (sequence (map (\<lambda>kv. encode (snd kv)) kvs)) =
      list_ex (\<lambda>kv. has_unsupported (snd kv)) kvs"
    by (simp add: isl_sequence)
  then show ?case by (auto split: sum.splits)
qed simp_all

lemma sequence_Inl: "sequence xs = Inl e \<Longrightarrow> Inl e \<in> set xs"
  by (induction xs) (auto split: sum.splits)

lemma encode_error: "encode v = Inl e \<Longrightarrow> e = TypeError"
proof (induction v)
  case (PyList xs)
  then show ?case by (auto split: sum.splits dest!: sequence_Inl)
next
  case (PyDict kvs)
  have "\<And>kv. kv \<in> set kvs \<Longrightarrow> encode (snd kv) = Inl e \<Longrightarrow> e = TypeError"
    using PyDict.IH by (case_tac kv) auto
  with PyDict.prems show ?case by (auto split: sum.splits dest!: sequence_Inl)
qed simp_all

lemma has_unsupported_encode: "has_unsupported v \<Longrightarrow> encode v = Inl TypeError"
  using isl_encode [of v] encode_error [of v] by (cases "encode v") auto


lemma has_unsupported_update:
  assumes "distinct (map fst kept)" "has_unsupported (PyDict kept)"
  shows "has_unsupported (PyDict (dict_update old kept))"
proof -
  from assms(2) obtain k v where kv: "(k, v) \<in> set kept" "has_unsupported v"
    by (auto simp: list_ex_iff)
  have "map_of (rev kept) k = Some v"
    using assms(1) kv(1) by (intro map_of_is_SomeI) (simp_all add: rev_map [symmetric])
  then have "map_of (dict_update old kept) k = Some v"
    by (simp add: map_of_dict_update map_add_def)
  then have "(k, v) \<in> set (dict_update old kept)"
    by (rule map_of_SomeD)
  with kv(2) show ?thesis
    by (auto simp: list_ex_iff intro!: bexI [of _ "(k, v)"])
qed

text \<open>
  C7, as amended. When the record holds, outside its scratch field, a value of a type the
  encoder does not know, \<^verbatim>\<open>set_state\<close> raises and the table is what it was before
  the call; the exception is the \<^verbatim>\<open>TypeError\<close> of the encoder whenever the key has no
  row or its row decodes to a dictionary. The keys of a dictionary are distinct.
\<close>

theorem set_state_unsupported:
  assumes "distinct (map fst (items (heap w ! r)))"
    and "has_unsupported (PyDict (AList.delete ''__memory__'' (items (heap w ! r))))"
  shows "isl (fst (set_state state_id chat_id r w)) \<and>
         table (snd (set_state state_id chat_id r w)) = table w \<and>
         ((case State_get (chat_id, state_id) w of
             None \<Rightarrow> True
           | Some text \<Rightarrow> is_mapping (json_decode text)) \<longrightarrow>
          fst (set_state state_id chat_id r w) = Inl TypeError)"
proof -
  let ?kept = "AList.delete ''__memory__'' (items (heap w ! r))"
  have d: "distinct (map fst ?kept)"
    using assms(1) by (rule distinct_delete)
  have e: "encode (PyDict ?kept) = Inl TypeError"
    using assms(2) by (rule has_unsupported_encode)
  have u: "\<And>old. encode (PyDict (dict_update old ?kept)) = Inl TypeError"
    using has_unsupported_update [OF d assms(2)] by (rule has_unsupported_encode)
  show ?thesis
  proof (cases "map_of (table w) (chat_id, state_id)")
    case None
    then show ?thesis
      using e by (simp add: set_state_eq State_get_def Let_def del: encode.simps)
  next
    case (Some info0)
    show ?thesis
    proof (cases "decode info0")
      case (Inl err)
      then show ?thesis
        using Some by (simp add: set_state_eq State_get_def json_decode_def Let_def)
    next
      case (Inr info)
      then show ?thesis
        using Some u
        by (cases info)
          (simp_all add: set_state_eq State_get_def json_decode_def Let_def del: encode.simps)
    qed
  qed
qed


theorem set_state_unsupported_witness:
  "distinct (map fst (items (heap
     \<lparr>heap = [\<lparr>items = [(''conn'', PyObject 0), (''__memory__'', PyDict [])],
               dump_function = None\<rparr>],
      table = [((42, ''flow''), JObject [(''a'', JInt 1)])]\<rparr> ! 0))) \<and>
   has_unsupported (PyDict (AList.delete ''__memory__'' (items (heap
     \<lparr>heap = [\<lparr>items = [(''conn'', PyObject 0), (''__memory__'', PyDict [])],
               dump_function = None\<rparr>],
      table = [((42, ''flow''), JObject [(''a'', JInt 1)])]\<rparr> ! 0)))) \<and>
   fst (set_state ''flow'' 42 0
     \<lparr>heap = [\<lparr>items = [(''conn'', PyObject 0), (''__memory__'', PyDict [])],
               dump_function = None\<rparr>],
      table = [((42, ''flow''), JObject [(''a'', JInt 1)])]\<rparr>) = Inl TypeError \<and>
   table (snd (set_state ''flow'' 42 0
     \<lparr>heap = [\<lparr>items = [(''conn'', PyObject 0), (''__memory__'', PyDict [])],
               dump_function = None\<rparr>],
      table = [((42, ''flow''), JObject [(''a'', JInt 1)])]\<rparr>)) =
     [((42, ''flow''), JObject [(''a'', JInt 1)])]"
proof -
  let ?w = "\<lparr>heap = [\<lparr>items = [(''conn'', PyObject 0), (''__memory__'', PyDict [])],
               dump_function = None\<rparr>],
      table = [((42, ''flow''), JObject [(''a'', JInt 1)])]\<rparr>"
  have a: "distinct (map fst (items (heap ?w ! 0)))"
    by simp
  have b: "has_unsupported (PyDict (AList.delete ''__memory__'' (items (heap ?w ! 0))))"
    by simp
  have c: "(case State_get (42, ''flow'') ?w of
             None \<Rightarrow> True
           | Some info \<Rightarrow> is_mapping (json_decode info))"
    by (simp add: State_get_def json_decode_def dict_update_def dict_of_pairs_def object_hook_def)
  show ?thesis
    using set_state_unsupported [OF a b, of "''flow''" 42] a b c by simp
qed

text \<open>
  C7 fails as stated: a record whose unsupported value is inside the scratch field is
  written, since the scratch field is popped before the record is encoded.
\<close>

theorem set_state_unsupported_scratch_counterexample:
  "has_unsupported (PyDict (items (heap
     \<lparr>heap = [\<lparr>items = [(''step'', PyInt 1), (''__memory__'', PyDict [(''conn'', PyObject 0)])],
               dump_function = None\<rparr>],
      table = []\<rparr> ! 0))) \<and>
   fst (set_state ''flow'' 42 0
     \<lparr>heap = [\<lparr>items = [(''step'', PyInt 1), (''__memory__'', PyDict [(''conn'', PyObject 0)])],
               dump_function = None\<rparr>],
      table = []\<rparr>) = Inr () \<and>
   table (snd (set_state ''flow'' 42 0
     \<lparr>heap = [\<lparr>items = [(''step'', PyInt 1), (''__memory__'', PyDict [(''conn'', PyObject 0)])],
               dump_function = None\<rparr>],
      table = []\<rparr>)) = [((42, ''flow''), JObject [(''step'', JInt 1)])]"
  by (simp add: set_state_eq Let_def)

subsection \<open>The scratch field\<close>

lemma sequence_length: "sequence xs = Inr js \<Longrightarrow> length js = length xs"
  by (simp add: sequence_Inr_iff list_all2_lengthD)

lemma encode_PyDict_fields: "encode (PyDict d) = Inr t \<Longrightarrow> json_fields t = map fst d"
  by (auto simp: json_fields_def split: sum.splits dest!: sequence_length)

lemma keys_dict_update:
  "set (map fst (dict_update d ps)) = set (map fst d) \<union> set (map fst ps)"
proof -
  have "dom (map_of (dict_update d ps)) = dom (map_of d) \<union> dom (map_of (rev ps))"
    by (simp add: map_of_dict_update Un_commute)
  then show ?thesis
    by (simp add: dom_map_of_conv_image_fst)
qed

lemma decode_PyDict_fields:
  assumes "decode j = Inr (PyDict d)"
  shows "set (map fst d) = set (json_fields j)"
proof (cases j)
  case (JObject kjs)
  from assms obtain vs where vs: "sequence (map (\<lambda>kj. decode (snd kj)) kjs) = Inr vs"
    and h: "object_hook (dict_of_pairs (zip (map fst kjs) vs)) = Inr (PyDict d)"
    by (auto simp: JObject split: sum.splits)
  from h have d: "d = dict_of_pairs (zip (map fst kjs) vs)"
    by (auto simp: object_hook_def split: option.splits pyval.splits sum.splits)
  have "length vs = length kjs"
    using sequence_length [OF vs] by simp
  then have "map fst (zip (map fst kjs) vs) = map fst kjs"
    by simp
  then show ?thesis
    using keys_dict_update [of "[]" "zip (map fst kjs) vs"]
    by (simp add: d dict_of_pairs_def JObject json_fields_def)
qed (use assms in \<open>auto split: sum.splits\<close>)

lemma set_update_subset: "set (AList.update k v al) \<subseteq> insert (k, v) (set al)"
  by (induction al) auto

lemma scratch_not_kept: "''__memory__'' \<notin> set (map fst (AList.delete ''__memory__'' al))"
  by (simp add: delete_keys)

lemma written_fields:
  assumes "fst (set_state state_id chat_id r w) = Inr ()"
  shows "\<exists>t. table (snd (set_state state_id chat_id r w)) =
             (case map_of (table w) (chat_id, state_id) of
                None \<Rightarrow> table w @ [((chat_id, state_id), t)]
              | Some old \<Rightarrow> AList.update (chat_id, state_id) t (table w)) \<and>
           set (json_fields t) =
             set (row_fields (chat_id, state_id) w) \<union>
             set (map fst (AList.delete ''__memory__'' (items (heap w ! r))))"
proof (cases "map_of (table w) (chat_id, state_id)")
  case None
  from assms None obtain t where
    t: "encode (PyDict (AList.delete ''__memory__'' (items (heap w ! r)))) = Inr t"
    by (auto simp add: set_state_eq Let_def simp del: encode.simps split: sum.splits)
  have "table (snd (set_state state_id chat_id r w)) = table w @ [((chat_id, state_id), t)]"
    using None t by (simp add: set_state_eq Let_def del: encode.simps)
  then show ?thesis
    using None encode_PyDict_fields [OF t]
    by (intro exI [of _ t]) (simp add: row_fields_def State_get_def)
next
  case (Some old)
  from assms Some obtain d t where d: "decode old = Inr (PyDict d)"
    and t: "encode (PyDict (dict_update d (AList.delete ''__memory__'' (items (heap w ! r))))) = Inr t"
    by (auto simp add: set_state_eq Let_def simp del: encode.simps
        split: sum.splits elim!: update_method.elims)
  have "table (snd (set_state state_id chat_id r w)) = AList.update (chat_id, state_id) t (table w)"
    using Some d t by (simp add: set_state_eq Let_def del: encode.simps)
  moreover have "set (json_fields t) = set (json_fields old) \<union>
      set (map fst (AList.delete ''__memory__'' (items (heap w ! r))))"
    using encode_PyDict_fields [OF t] decode_PyDict_fields [OF d]
    by (simp add: keys_dict_update del: set_map)
  ultimately show ?thesis
    using Some by (intro exI [of _ t]) (simp add: row_fields_def State_get_def)
qed

lemma failed_set_state:
  "fst (set_state state_id chat_id r w) \<noteq> Inr () \<Longrightarrow>
     table (snd (set_state state_id chat_id r w)) = table w"
  by (auto simp add: set_state_eq Let_def simp del: encode.simps split: option.splits sum.splits)

lemma no_scratch_set_state:
  assumes "no_scratch_rows w"
  shows "no_scratch_rows (snd (set_state state_id chat_id r w))"
proof (cases "fst (set_state state_id chat_id r w) = Inr ()")
  case False
  then show ?thesis
    using assms failed_set_state [OF False] by (simp add: no_scratch_rows_def)
next
  case True
  from written_fields [OF True] obtain t where
    tab: "table (snd (set_state state_id chat_id r w)) =
             (case map_of (table w) (chat_id, state_id) of
                None \<Rightarrow> table w @ [((chat_id, state_id), t)]
              | Some old \<Rightarrow> AList.update (chat_id, state_id) t (table w))"
    and f: "set (json_fields t) =
             set (row_fields (chat_id, state_id) w) \<union>
             set (map fst (AList.delete ''__memory__'' (items (heap w ! r))))"
    by blast
  have "''__memory__'' \<notin> set (row_fields (chat_id, state_id) w)"
  proof (cases "map_of (table w) (chat_id, state_id)")
    case None
    then show ?thesis by (simp add: row_fields_def State_get_def)
  next
    case (Some old)
    then have "((chat_id, state_id), old) \<in> set (table w)"
      by (rule map_of_SomeD)
    then show ?thesis
      using assms Some by (auto simp: row_fields_def State_get_def no_scratch_rows_def list_all_iff)
  qed
  then have t: "''__memory__'' \<notin> set (json_fields t)"
    using f scratch_not_kept by simp
  show ?thesis
    using assms t set_update_subset [of "(chat_id, state_id)" t "table w"]
    by (auto simp: tab no_scratch_rows_def list_all_iff split: option.splits)
qed

lemma reachable_no_scratch: "reachable w \<Longrightarrow> no_scratch_rows w"
  by (induction rule: reachable.induct) (simp_all add: no_scratch_rows_def no_scratch_set_state [unfolded no_scratch_rows_def])


lemma row_fields_set_state:
  "set (row_fields (chat_id, state_id) (snd (set_state state_id chat_id r w))) =
     (if fst (set_state state_id chat_id r w) = Inr ()
      then set (row_fields (chat_id, state_id) w) \<union>
           set (map fst (AList.delete ''__memory__'' (items (heap w ! r))))
      else set (row_fields (chat_id, state_id) w))"
proof (cases "fst (set_state state_id chat_id r w) = Inr ()")
  case False
  then show ?thesis
    using failed_set_state [OF False] by (simp add: row_fields_def State_get_def)
next
  case True
  from written_fields [OF True] obtain t where
    tab: "table (snd (set_state state_id chat_id r w)) =
             (case map_of (table w) (chat_id, state_id) of
                None \<Rightarrow> table w @ [((chat_id, state_id), t)]
              | Some old \<Rightarrow> AList.update (chat_id, state_id) t (table w))"
    and f: "set (json_fields t) =
             set (row_fields (chat_id, state_id) w) \<union>
             set (map fst (AList.delete ''__memory__'' (items (heap w ! r))))"
    by blast
  have "map_of (table (snd (set_state state_id chat_id r w))) (chat_id, state_id) = Some t"
    by (simp add: tab update_conv map_add_def split: option.splits)
  then show ?thesis
    using True f by (simp add: row_fields_def State_get_def)
qed

lemma fold_scratch:
  "table (fold (dict_setitem r k) vs w) = table w \<and>
   length (heap (fold (dict_setitem r k) vs w)) = length (heap w) \<and>
   AList.delete k (items (heap (fold (dict_setitem r k) vs w) ! r)) =
     AList.delete k (items (heap w ! r))"
proof (induction vs arbitrary: w)
  case Nil
  show ?case by simp
next
  case (Cons v vs)
  have "AList.delete k (items (heap (dict_setitem r k v w) ! r)) = AList.delete k (items (heap w ! r))"
    by (cases "r < length (heap w)")
      (simp_all add: dict_setitem_def delete_update_same list_update_beyond)
  then show ?case
    using Cons.IH [of "dict_setitem r k v w"] by (simp add: dict_setitem_def)
qed

lemma set_state_cong:
  assumes "table w' = table w"
    and "AList.delete ''__memory__'' (items (heap w' ! r')) =
         AList.delete ''__memory__'' (items (heap w ! r))"
  shows "fst (set_state state_id chat_id r' w') = fst (set_state state_id chat_id r w) \<and>
         table (snd (set_state state_id chat_id r' w')) =
           table (snd (set_state state_id chat_id r w))"
  using assms
  by (simp add: set_state_eq Let_def del: encode.simps split: option.splits sum.splits)

text \<open>
  C4. The scratch field \<^verbatim>\<open>'__memory__'\<close> is never persisted. The row \<^verbatim>\<open>set_state\<close>
  leaves has the field among its members only if the row had it before the call, since
  the field is popped from the copy of the record; so when no stored text has the field
  none has it after the call, and in every world a run can reach none has it. Assigning
  to the scratch field of the record any number of times changes neither the outcome of
  \<^verbatim>\<open>set_state\<close> nor the table it leaves; and once the record has been written, writing
  it again after such assignments leaves the row of the key with the same fields.
\<close>

theorem scratch_never_persisted:
  assumes "r < length (heap w)"
  shows "(''__memory__'' \<in> set (row_fields (chat_id, state_id) (snd (set_state state_id chat_id r w))) \<longrightarrow>
            ''__memory__'' \<in> set (row_fields (chat_id, state_id) w)) \<and>
         (no_scratch_rows w \<longrightarrow> no_scratch_rows (snd (set_state state_id chat_id r w))) \<and>
         (reachable w \<longrightarrow> no_scratch_rows w) \<and>
         fst (set_state state_id chat_id r (fold (dict_setitem r ''__memory__'') vs w)) =
           fst (set_state state_id chat_id r w) \<and>
         table (snd (set_state state_id chat_id r (fold (dict_setitem r ''__memory__'') vs w))) =
           table (snd (set_state state_id chat_id r w)) \<and>
         set (row_fields (chat_id, state_id) (snd (set_state state_id chat_id r
                (fold (dict_setitem r ''__memory__'') vs (snd (set_state state_id chat_id r w)))))) =
           set (row_fields (chat_id, state_id) (snd (set_state state_id chat_id r w)))"
proof -
  let ?w1 = "snd (set_state state_id chat_id r w)"
  let ?w2 = "fold (dict_setitem r ''__memory__'') vs ?w1"
  have a: "''__memory__'' \<in> set (row_fields (chat_id, state_id) ?w1) \<longrightarrow>
            ''__memory__'' \<in> set (row_fields (chat_id, state_id) w)"
    using row_fields_set_state [of chat_id state_id r w]
      scratch_not_kept [of "items (heap w ! r)"]
    by (auto split: if_splits)
  have a': "(no_scratch_rows w \<longrightarrow> no_scratch_rows ?w1) \<and> (reachable w \<longrightarrow> no_scratch_rows w)"
    by (simp add: no_scratch_set_state reachable_no_scratch)
  have b: "fst (set_state state_id chat_id r (fold (dict_setitem r ''__memory__'') vs w)) =
           fst (set_state state_id chat_id r w) \<and>
         table (snd (set_state state_id chat_id r (fold (dict_setitem r ''__memory__'') vs w))) =
           table (snd (set_state state_id chat_id r w))"
    using fold_scratch [of r "''__memory__''" vs w] by (intro set_state_cong) simp_all
  have k: "AList.delete ''__memory__'' (items (heap ?w1 ! r)) =
           AList.delete ''__memory__'' (items (heap w ! r))"
    using assms by (simp add: set_state_heap nth_append)
  have "fst (set_state state_id chat_id r ?w2) = fst (set_state state_id chat_id r ?w1) \<and>
        table (snd (set_state state_id chat_id r ?w2)) = table (snd (set_state state_id chat_id r ?w1))"
    using fold_scratch [of r "''__memory__''" vs ?w1] by (intro set_state_cong) simp_all
  then have "set (row_fields (chat_id, state_id) (snd (set_state state_id chat_id r ?w2))) =
      set (row_fields (chat_id, state_id) (snd (set_state state_id chat_id r ?w1)))"
    by (simp add: row_fields_def State_get_def)
  also have "\<dots> = set (row_fields (chat_id, state_id) ?w1)"
  proof (cases "fst (set_state state_id chat_id r w) = Inr ()")
    case True
    then show ?thesis
      using row_fields_set_state [of chat_id state_id r ?w1]
        row_fields_set_state [of chat_id state_id r w] k
      by (auto split: if_splits)
  next
    case False
    have "fst (set_state state_id chat_id r ?w1) = fst (set_state state_id chat_id r w)"
      using failed_set_state [OF False] k set_state_cong [of ?w1 w r r state_id chat_id]
      by simp
    then show ?thesis
      using False row_fields_set_state [of chat_id state_id r ?w1] by simp
  qed
  finally show ?thesis
    using a a' b by blast
qed

theorem scratch_never_persisted_witness:
  "reachable
     \<lparr>heap = [\<lparr>items = [(''step'', PyInt 1), (''__memory__'', PyDict [(''conn'', PyObject 0)])],
               dump_function = None\<rparr>],
      table = []\<rparr> \<and>
   (0::nat) < length (heap
     \<lparr>heap = [\<lparr>items = [(''step'', PyInt 1), (''__memory__'', PyDict [(''conn'', PyObject 0)])],
               dump_function = None\<rparr>],
      table = []\<rparr>) \<and>
   table (snd (set_state ''flow'' 42 0
     \<lparr>heap = [\<lparr>items = [(''step'', PyInt 1), (''__memory__'', PyDict [(''conn'', PyObject 0)])],
               dump_function = None\<rparr>],
      table = []\<rparr>)) = [((42, ''flow''), JObject [(''step'', JInt 1)])] \<and>
   no_scratch_rows (snd (set_state ''flow'' 42 0
     \<lparr>heap = [\<lparr>items = [(''step'', PyInt 1), (''__memory__'', PyDict [(''conn'', PyObject 0)])],
               dump_function = None\<rparr>],
      table = []\<rparr>)) \<and>
   table (snd (set_state ''flow'' 42 0 (fold (dict_setitem 0 ''__memory__'') [PyInt 5, PyDict []]
     \<lparr>heap = [\<lparr>items = [(''step'', PyInt 1), (''__memory__'', PyDict [(''conn'', PyObject 0)])],
               dump_function = None\<rparr>],
      table = []\<rparr>))) = [((42, ''flow''), JObject [(''step'', JInt 1)])]"
proof -
  let ?w = "\<lparr>heap = [\<lparr>items = [(''step'', PyInt 1), (''__memory__'', PyDict [(''conn'', PyObject 0)])],
               dump_function = None\<rparr>],
      table = []\<rparr>"
  have a: "reachable ?w"
    by (rule reachable.start) simp
  have b: "(0::nat) < length (heap ?w)"
    by simp
  have t: "table (snd (set_state ''flow'' 42 0 ?w)) = [((42, ''flow''), JObject [(''step'', JInt 1)])]"
    by (simp add: set_state_eq Let_def)
  note th = scratch_never_persisted [OF b, of 42 "''flow''" "[PyInt 5, PyDict []]"]
  have "no_scratch_rows (snd (set_state ''flow'' 42 0 ?w))"
    using th a by blast
  moreover have "table (snd (set_state ''flow'' 42 0
           (fold (dict_setitem 0 ''__memory__'') [PyInt 5, PyDict []] ?w))) =
         table (snd (set_state ''flow'' 42 0 ?w))"
    using th by blast
  ultimately show ?thesis
    using a b t by simp
qed

subsection \<open>The codec is a singleton\<close>

lemma JSONCodec_calls_fixed:
  "cls_instance cls = Some i \<Longrightarrow> JSONCodec_calls n cls = (replicate n i, cls)"
  by (induction n) (simp_all add: JSONCodec_new_def)

text \<open>
  C8. Every call of the constructor returns the same instance: \<open>n\<close> calls in a row all
  return what the first returns, and after the first call the class is as that call left
  it, so no second object is made. The instance a fresh class makes has the encoder's
  \<open>encode\<close> and the decoder's \<open>decode\<close>.
\<close>

theorem JSONCodec_singleton:
  "fst (JSONCodec_calls n cls) = replicate n (fst (JSONCodec_new cls)) \<and>
   snd (JSONCodec_calls (Suc n) cls) = snd (JSONCodec_new cls) \<and>
   cls_objects (snd (JSONCodec_new \<lparr>cls_instance = None, cls_objects = objs\<rparr>)) !
     fst (JSONCodec_new \<lparr>cls_instance = None, cls_objects = objs\<rparr>) =
     \<lparr>codec_encode = encode, codec_decode = decode\<rparr>"
proof -
  obtain i cls1 where new: "JSONCodec_new cls = (i, cls1)"
    by (cases "JSONCodec_new cls")
  then have inst: "cls_instance cls1 = Some i"
    by (auto simp: JSONCodec_new_def split: option.splits)
  have "fst (JSONCodec_calls n cls) = replicate n i"
    by (cases n) (simp_all add: new JSONCodec_calls_fixed [OF inst])
  moreover have "snd (JSONCodec_calls (Suc n) cls) = cls1"
    by (simp add: new JSONCodec_calls_fixed [OF inst])
  ultimately show ?thesis
    by (simp add: new) (simp add: JSONCodec_new_def)
qed

subsection \<open>The lazy map and its records\<close>












end
